theory Spec2Isabelle
  imports Main "HOL-Library.Sublist"
begin

section \<open>Data model\<close>

text \<open>
  A chat message as the persistence layer sees it. An annotation is a JSON value: a plain
  string tag such as \<open>no-store\<close> or \<open>hidden\<close>, an object (kept as its list of
  fields), or any other JSON value. The \<open>annotations\<close> field itself is optional, and
  so are \<open>parts\<close> and \<open>toolInvocations\<close> (JSON arrays, kept as opaque text).
\<close>

datatype annotation = Tag string | Obj "(string \<times> string) list" | OtherJson

record message =
  msg_id :: string
  msg_role :: string
  content :: string
  parts :: "string option"
  toolInvocations :: "string option"
  annotations :: "annotation list option"

text \<open>A directory entry of the file map; an entry of the map may also be undefined.\<close>

datatype dirent = File (file_content: string) (isBinary: bool) | Folder

type_synonym FileMap = "(string \<times> dirent option) list"

record Snapshot =
  chatIndex :: string
  files :: FileMap
  summary :: "string option"

section \<open>JavaScript helpers used by the source\<close>

text \<open>A string is truthy exactly when it is not empty.\<close>

definition truthy :: "string \<Rightarrow> bool" where
  "truthy s = (s \<noteq> [])"

text \<open>
  An optional string under a truthiness test: its value when it passes, nothing when it
  is null, undefined or empty.
\<close>

definition truthy_value :: "string option \<Rightarrow> string option" where
  "truthy_value x = (case x of Some v \<Rightarrow> if truthy v then Some v else None | None \<Rightarrow> None)"

text \<open>\<open>Array.prototype.findIndex\<close>: the first index whose element satisfies the test, else -1.\<close>

fun findIndex :: "('a \<Rightarrow> bool) \<Rightarrow> 'a list \<Rightarrow> int" where
  "findIndex P [] = -1"
| "findIndex P (x # xs) =
     (if P x then 0 else (let i = findIndex P xs in if i < 0 then -1 else i + 1))"

text \<open>\<open>Array.prototype.slice(start, end)\<close>, negative arguments counting from the end.\<close>

definition slice :: "'a list \<Rightarrow> int \<Rightarrow> int \<Rightarrow> 'a list" where
  "slice xs start fin =
     (let n = int (length xs);
          k = (if start < 0 then max (n + start) 0 else min start n);
          final = (if fin < 0 then max (n + fin) 0 else min fin n)
      in take (nat (final - k)) (drop (nat k) xs))"

text \<open>\<open>Array.prototype.join\<close> on strings.\<close>

fun join :: "string \<Rightarrow> string list \<Rightarrow> string" where
  "join sep [] = []"
| "join sep [x] = x"
| "join sep (x # y # ys) = x @ sep @ join sep (y # ys)"


definition nl :: string where
  "nl = [CHR 0x0A]"

definition spaces :: "nat \<Rightarrow> string" where
  "spaces n = replicate n (CHR '' '')"

section \<open>Snapshot reconciliation in \<open>useChatHistory\<close>\<close>

text \<open>
  The entries handed to the command detector: every snapshot entry of type file, as a
  (path, content) pair, in the order of \<open>Object.entries\<close>.
\<close>

fun snapshot_file_list :: "FileMap \<Rightarrow> (string \<times> string) list" where
  "snapshot_file_list [] = []"
| "snapshot_file_list ((key, Some (File c b)) # rest) = (key, c) # snapshot_file_list rest"
| "snapshot_file_list ((key, v) # rest) = snapshot_file_list rest"

text \<open>
  The text embedded for one snapshot entry: a file action (framed by a line break and the
  template's indentation) for a file, nothing otherwise.
\<close>

definition file_action :: "string \<Rightarrow> string \<Rightarrow> string" where
  \<open>file_action key c =
     ''<boltAction type="file" filePath="'' @ key @ ''">'' @ nl
     @ c @ nl
     @ spaces 22 @ ''</boltAction>''\<close>

fun boltAction :: "string \<times> dirent option \<Rightarrow> string" where
  "boltAction (key, Some (File c b)) = nl @ spaces 22 @ file_action key c @ nl @ spaces 22"
| "boltAction (key, v) = []"

text \<open>The body of the restore artifact: the entries' texts joined by a newline.\<close>

definition embedded_files :: "FileMap \<Rightarrow> string" where
  "embedded_files fs = join nl (map boltAction fs)"

text \<open>The hidden user message that announces the restore.\<close>

definition restore_request :: "string \<Rightarrow> message" where
  "restore_request gid =
     \<lparr>msg_id = gid, msg_role = ''user'', content = ''Restore project from snapshot'',
      parts = None, toolInvocations = None,
      annotations = Some [Tag ''no-store'', Tag ''hidden'']\<rparr>"

text \<open>
  The assistant message that carries the snapshot: the artifact with one file action per
  file entry and the command actions, tagged \<open>no-store\<close>, with the chat summary as a
  further annotation when the snapshot has a non-empty one.
\<close>

definition restore_content :: "FileMap \<Rightarrow> string \<Rightarrow> string" where
  \<open>restore_content fs commandActionsString =
     ''Bolt Restored your chat from a snapshot. You can revert this message to load the full chat history.'' @ nl
     @ spaces 18 @ ''<boltArtifact id="restored-project-setup" title="Restored Project & Setup" type="bundled">'' @ nl
     @ spaces 18 @ embedded_files fs @ nl
     @ spaces 18 @ commandActionsString @ nl
     @ spaces 18 @ ''</boltArtifact>'' @ nl
     @ spaces 18\<close>

definition summary_annotation :: "string \<Rightarrow> string option \<Rightarrow> annotation list" where
  "summary_annotation cid sm =
     (case sm of
        None \<Rightarrow> []
      | Some s \<Rightarrow>
          if truthy s
          then [Obj [(''chatId'', cid), (''type'', ''chatSummary''), (''summary'', s)]]
          else [])"

definition restore_assistant :: "string \<Rightarrow> FileMap \<Rightarrow> string \<Rightarrow> string option \<Rightarrow> message" where
  "restore_assistant cid fs commandActionsString sm =
     \<lparr>msg_id = cid, msg_role = ''assistant'',
      content = restore_content fs commandActionsString,
      parts = None, toolInvocations = None,
      annotations = Some (Tag ''no-store'' # summary_annotation cid sm)\<rparr>"

text \<open>
  The outcome of the reconciliation: the indices it computes, the list given to
  \<open>setArchivedMessages\<close> and the list given to \<open>setInitialMessages\<close> (the
  visible messages).
\<close>

record reconciled =
  startingIdx :: int
  endingIdx :: int
  snapshotIndex :: int
  archivedMessages :: "message list"
  visibleMessages :: "message list"

definition validSnapshot :: "Snapshot option \<Rightarrow> Snapshot" where
  "validSnapshot snapshot =
     (case snapshot of
        Some s \<Rightarrow> s
      | None \<Rightarrow> \<lparr>chatIndex = [], files = [], summary = None\<rparr>)"

definition snapshot_files :: "Snapshot option \<Rightarrow> FileMap" where
  "snapshot_files snapshot = (case snapshot of Some s \<Rightarrow> files s | None \<Rightarrow> [])"

definition compute_endingIdx :: "message list \<Rightarrow> string option \<Rightarrow> int" where
  "compute_endingIdx log rewindId =
     (case rewindId of
        Some r \<Rightarrow>
          if truthy r then findIndex (\<lambda>m. msg_id m = r) log + 1 else int (length log)
      | None \<Rightarrow> int (length log))"

definition compute_snapshotIndex :: "message list \<Rightarrow> Snapshot option \<Rightarrow> int" where
  "compute_snapshotIndex log snapshot =
     findIndex (\<lambda>m. msg_id m = chatIndex (validSnapshot snapshot)) log"

definition compute_startingIdx :: "message list \<Rightarrow> Snapshot option \<Rightarrow> string option \<Rightarrow> int" where
  "compute_startingIdx log snapshot rewindId =
     (let endIdx = compute_endingIdx log rewindId;
          snapIdx = compute_snapshotIndex log snapshot;
          s1 = (if snapIdx \<ge> 0 \<and> snapIdx < endIdx then snapIdx else -1)
      in if snapIdx > 0 \<and> Some (msg_id (log ! nat snapIdx)) = rewindId then -1 else s1)"

text \<open>
  The reconciliation proper. \<open>gid\<close> is the identifier \<open>generateId()\<close> returns;
  \<open>detect\<close> and \<open>createActions\<close> stand for \<open>detectProjectCommands\<close> and
  \<open>createCommandActionsString\<close>, the command detector and its formatter, which live
  outside this module.
\<close>

definition reconcile ::
  "string \<Rightarrow> ((string \<times> string) list \<Rightarrow> 'c) \<Rightarrow> ('c \<Rightarrow> string)
     \<Rightarrow> message list \<Rightarrow> Snapshot option \<Rightarrow> string option \<Rightarrow> reconciled" where
  "reconcile gid detect createActions log snapshot rewindId =
     (let endIdx = compute_endingIdx log rewindId;
          snapIdx = compute_snapshotIndex log snapshot;
          startIdx = compute_startingIdx log snapshot rewindId;
          filteredMessages = slice log (startIdx + 1) endIdx;
          archived = (if startIdx \<ge> 0 then slice log 0 (startIdx + 1) else []);
          visible =
            (if startIdx > 0
             then (let projectCommands =
                         detect (snapshot_file_list (files (validSnapshot snapshot)));
                       commandActionsString = createActions projectCommands
                   in [restore_request gid,
                       restore_assistant (msg_id (log ! nat snapIdx)) (snapshot_files snapshot)
                         commandActionsString (summary (validSnapshot snapshot))]
                      @ filteredMessages)
             else filteredMessages)
      in \<lparr>startingIdx = startIdx, endingIdx = endIdx, snapshotIndex = snapIdx,
          archivedMessages = archived, visibleMessages = visible\<rparr>)"

section \<open>Restore coordinator in \<open>useChatHistory\<close>\<close>

text \<open>An awaited call either rejects with an error message or resolves to a value.\<close>

datatype 'a outcome = Rejected string | Resolved 'a

text \<open>A record of the Local History Store; its metadata, which nothing here reads, is left out.\<close>

record ChatHistoryItem =
  chat_id :: string
  chat_urlId :: "string option"
  chat_description :: "string option"
  messages :: "message list"
  timestamp :: string

text \<open>What \<open>projectRestoreService.restoreProject\<close> resolves to when it finds the project.\<close>

record restored_project =
  rp_messages :: "message list"
  rp_description :: "string option"
  rp_urlId :: string

text \<open>
  The calls the coordinator makes on its collaborators, in the order it makes them.
  \<open>LocalQuery\<close> is the concurrent pair \<open>getMessages\<close>/\<open>getSnapshot\<close> on the
  Local History Store, \<open>RemoteRestore\<close> the fallback to the Remote Project Store.
\<close>

datatype effect =
    LocalQuery string
  | RemoteRestore string
  | LookupById string
  | LookupByUrlId string
  | SetMessages string "message list" "string option" "string option"
  | RestoreSnapshot string "Snapshot option"
  | AutoStartScheduled
  | NavigateHome
  | ToastError string
  | LogError string
  | ReleaseScheduled

text \<open>
  The state of one component instance: the two lock refs, the React state, the shared
  atoms, the calls made so far, the restores whose promise chain has not settled yet and
  the number of pending five-second release timers.
\<close>

record hook =
  restoreInProgress :: bool
  autoStartInProgress :: bool
  ready :: bool
  archived_state :: "message list"
  initialMessages :: "message list"
  urlId :: "string option"
  chatId :: "string option"
  description :: "string option"
  trace :: "effect list"
  inflight :: "string list"
  release_timers :: nat

definition emit :: "effect list \<Rightarrow> hook \<Rightarrow> hook" where
  "emit es s = s\<lparr>trace := trace s @ es\<rparr>"

text \<open>
  The synchronous body of the effect, run at every activation: \<open>db\<close> tells whether the
  Local History Store is open, \<open>mixedId\<close> is the session identifier of the route.
\<close>

definition activate :: "bool \<Rightarrow> bool \<Rightarrow> string option \<Rightarrow> hook \<Rightarrow> hook" where
  "activate persistenceEnabled db mixedId s =
     (if restoreInProgress s then s
      else
        (let s1 = s\<lparr>autoStartInProgress := False\<rparr>
         in if \<not> db
            then (let s2 = s1\<lparr>ready := True\<rparr>
                  in if persistenceEnabled
                     then emit [LogError ''Chat persistence initialization failed'',
                                ToastError ''Chat persistence is unavailable''] s2
                     else s2)
            else
              (case mixedId of
                 Some i \<Rightarrow>
                   if truthy i
                   then emit [LocalQuery i] (s1\<lparr>restoreInProgress := True, inflight := inflight s1 @ [i]\<rparr>)
                   else s1\<lparr>ready := True\<rparr>
               | None \<Rightarrow> s1\<lparr>ready := True\<rparr>)))"

text \<open>What the command detector finds: a setup command and a start command, each optional.\<close>

record ProjectCommands =
  setupCommand :: "string option"
  startCommand :: "string option"

text \<open>
  The answers of the collaborators during one restore: the Local History Store's pair of
  results, the rewind target of the URL, the generated identifier, the command detector
  and its formatter, whether writing the snapshot into the sandbox succeeds, the remote
  restore's result and the Local History Store's answers to the look-ups of the
  write-back.
\<close>

record restore_env =
  local_result :: "(ChatHistoryItem option \<times> Snapshot option) outcome"
  rewindTo :: "string option"
  generatedId :: string
  detectProjectCommands :: "(string \<times> string) list \<Rightarrow> ProjectCommands"
  createCommandActionsString :: "ProjectCommands \<Rightarrow> string"
  restoreSnapshot_ok :: bool
  remote_result :: "restored_project option outcome"
  getMessagesById :: "string \<Rightarrow> ChatHistoryItem option outcome"
  getMessagesByUrlId :: "string \<Rightarrow> ChatHistoryItem option outcome"

text \<open>\<open>x || undefined\<close> on an optional string.\<close>

definition or_undefined :: "string option \<Rightarrow> string option" where
  "or_undefined x = (case x of Some d \<Rightarrow> if truthy d then Some d else None | None \<Rightarrow> None)"

text \<open>The local path of the restore: reconcile, publish, repopulate the sandbox.\<close>

definition local_restore ::
  "restore_env \<Rightarrow> string \<Rightarrow> ChatHistoryItem \<Rightarrow> Snapshot option \<Rightarrow> hook \<Rightarrow> hook" where
  "local_restore env mixedId storedMessages snapshot s =
     (let r = reconcile (generatedId env) (detectProjectCommands env)
                (createCommandActionsString env)
                (messages storedMessages) snapshot (rewindTo env);
          s1 = s\<lparr>archived_state := archivedMessages r\<rparr>;
          s2 = (if 0 < startingIdx r then emit [RestoreSnapshot mixedId None] s1 else s1);
          s3 = s2\<lparr>initialMessages := visibleMessages r,
                  urlId := chat_urlId storedMessages,
                  description := chat_description storedMessages,
                  chatId := Some (chat_id storedMessages)\<rparr>
      in case snapshot of
           None \<Rightarrow> s3
         | Some sn \<Rightarrow>
             if files sn = [] then s3
             else
               (let s4 = emit [RestoreSnapshot (chat_id storedMessages) (Some sn)] s3
                in if restoreSnapshot_ok env
                   then (if \<not> autoStartInProgress s4
                         then emit [AutoStartScheduled] (s4\<lparr>autoStartInProgress := True\<rparr>)
                         else s4)
                   else s4\<lparr>restoreInProgress := False\<rparr>))"

text \<open>\<open>existingById || existingByUrlId\<close>.\<close>

definition existingChat ::
  "ChatHistoryItem option \<Rightarrow> ChatHistoryItem option \<Rightarrow> ChatHistoryItem option" where
  "existingChat existingById existingByUrlId =
     (case existingById of Some c \<Rightarrow> Some c | None \<Rightarrow> existingByUrlId)"

text \<open>
  The look-up by url identifier is only made when the restored project has one; otherwise
  the source puts \<open>null\<close> in its place.
\<close>

definition lookup_by_urlId :: "restore_env \<Rightarrow> restored_project \<Rightarrow> ChatHistoryItem option outcome" where
  "lookup_by_urlId env supabaseData =
     (if truthy (rp_urlId supabaseData) then getMessagesByUrlId env (rp_urlId supabaseData)
      else Resolved None)"

text \<open>
  The opportunistic write-back after a successful remote restore. Both look-ups are
  started together; a rejection of either, or of the write, is swallowed.
\<close>

definition write_back :: "restore_env \<Rightarrow> string \<Rightarrow> restored_project \<Rightarrow> hook \<Rightarrow> hook" where
  "write_back env mixedId supabaseData s =
     (let s1 = emit (LookupById mixedId #
                     (if truthy (rp_urlId supabaseData)
                      then [LookupByUrlId (rp_urlId supabaseData)] else [])) s
      in case getMessagesById env mixedId of
           Rejected e \<Rightarrow> s1
         | Resolved existingById \<Rightarrow>
             (case lookup_by_urlId env supabaseData of
                Rejected e \<Rightarrow> s1
              | Resolved existingByUrlId \<Rightarrow>
                  (case existingChat existingById existingByUrlId of
                     None \<Rightarrow>
                       emit [SetMessages mixedId (rp_messages supabaseData)
                               (Some (rp_urlId supabaseData))
                               (or_undefined (rp_description supabaseData))] s1
                   | Some c \<Rightarrow>
                       if messages c = []
                       then emit [SetMessages mixedId (rp_messages supabaseData)
                                    (Some (rp_urlId supabaseData))
                                    (or_undefined (rp_description supabaseData))] s1
                       else if chat_id c \<noteq> mixedId
                            then s1\<lparr>chatId := Some (chat_id c)\<rparr>
                            else s1)))"

text \<open>The remote fallback, taken when the Local History Store has no messages.\<close>

definition remote_restore :: "restore_env \<Rightarrow> string \<Rightarrow> hook \<Rightarrow> hook" where
  "remote_restore env mixedId s =
     (let s1 = emit [RemoteRestore mixedId] s
      in case remote_result env of
           Rejected e \<Rightarrow> emit [ToastError (''Failed to restore project: '' @ e)] s1
         | Resolved None \<Rightarrow> emit [NavigateHome] s1
         | Resolved (Some supabaseData) \<Rightarrow>
             if rp_messages supabaseData = [] then emit [NavigateHome] s1
             else write_back env mixedId supabaseData
                    (s1\<lparr>initialMessages := rp_messages supabaseData,
                        urlId := Some (rp_urlId supabaseData),
                        description := or_undefined (rp_description supabaseData),
                        chatId := Some mixedId\<rparr>))"

text \<open>The \<open>then\<close> handler of the promise chain.\<close>

definition on_resolved ::
  "restore_env \<Rightarrow> string \<Rightarrow> ChatHistoryItem option \<Rightarrow> Snapshot option \<Rightarrow> hook \<Rightarrow> hook" where
  "on_resolved env mixedId storedMessages snapshot s =
     (let s1 = (case storedMessages of
                  None \<Rightarrow> remote_restore env mixedId s
                | Some st \<Rightarrow>
                    if messages st \<noteq> [] then local_restore env mixedId st snapshot s
                    else remote_restore env mixedId s)
      in s1\<lparr>ready := True\<rparr>)"

text \<open>The \<open>catch\<close> handler of the promise chain.\<close>

definition on_rejected :: "string \<Rightarrow> hook \<Rightarrow> hook" where
  "on_rejected e s =
     (emit [LogError ''Failed to load chat messages or snapshot'',
            ToastError (''Failed to load chat: '' @ e)] s)\<lparr>restoreInProgress := False\<rparr>"

text \<open>The \<open>finally\<close> handler: it only schedules the release of the lock.\<close>

definition on_finally :: "hook \<Rightarrow> hook" where
  "on_finally s = emit [ReleaseScheduled] (s\<lparr>release_timers := release_timers s + 1\<rparr>)"

text \<open>The whole promise chain of the restore of \<open>mixedId\<close>, once its queries settle.\<close>

definition settle :: "restore_env \<Rightarrow> string \<Rightarrow> hook \<Rightarrow> hook" where
  "settle env mixedId s =
     (let s0 = s\<lparr>inflight := remove1 mixedId (inflight s)\<rparr>
      in on_finally
           (case local_result env of
              Rejected e \<Rightarrow> on_rejected e s0
            | Resolved (storedMessages, snapshot) \<Rightarrow>
                on_resolved env mixedId storedMessages snapshot s0))"

text \<open>The callback of the five-second timer.\<close>

definition release :: "hook \<Rightarrow> hook" where
  "release s = s\<lparr>restoreInProgress := False, release_timers := release_timers s - 1\<rparr>"

text \<open>
  The events of one component instance, and what each does when the event loop runs it. A
  chain can only settle while it is in flight, a timer can only fire once scheduled.
\<close>

datatype event =
    Activate bool bool "string option"
  | Settle restore_env string
  | TimerFires

fun step :: "event \<Rightarrow> hook \<Rightarrow> hook option" where
  "step (Activate persistenceEnabled db mixedId) s = Some (activate persistenceEnabled db mixedId s)"
| "step (Settle env mixedId) s =
     (if mixedId \<in> set (inflight s) then Some (settle env mixedId s) else None)"
| "step TimerFires s = (if 0 < release_timers s then Some (release s) else None)"

fun run :: "event list \<Rightarrow> hook \<Rightarrow> hook option" where
  "run [] s = Some s"
| "run (e # es) s = (case step e s of None \<Rightarrow> None | Some s' \<Rightarrow> run es s')"

fun is_activation :: "event \<Rightarrow> bool" where
  "is_activation (Activate p d m) = True"
| "is_activation e = False"

fun is_local_query :: "effect \<Rightarrow> bool" where
  "is_local_query (LocalQuery i) = True"
| "is_local_query e = False"

text \<open>The number of query sequences started so far.\<close>

definition query_sequences :: "hook \<Rightarrow> nat" where
  "query_sequences s = length (filter is_local_query (trace s))"

text \<open>A freshly mounted component.\<close>

definition fresh :: hook where
  "fresh = \<lparr>restoreInProgress = False, autoStartInProgress = False, ready = False,
            archived_state = [], initialMessages = [], urlId = None, chatId = None,
            description = None, trace = [], inflight = [], release_timers = 0\<rparr>"

text \<open>The writes made to the Local History Store so far.\<close>

fun is_SetMessages :: "effect \<Rightarrow> bool" where
  "is_SetMessages (SetMessages i ms u d) = True"
| "is_SetMessages e = False"

definition local_store_writes :: "hook \<Rightarrow> effect list" where
  "local_store_writes s = filter is_SetMessages (trace s)"

section \<open>Periodic sync agents\<close>

text \<open>How a network write ends: an ok response, a response that is not ok, or a throw.\<close>

datatype response = Ok | NotOk | Throws

subsection \<open>\<open>FileSyncService\<close>\<close>

text \<open>
  The fields of the service. Whether a getter is bound is all the model keeps of
  \<open>filesGetter\<close>: what it returns at a call is an argument of that call.
\<close>

record FileSyncService =
  fs_projectId :: "string option"
  fs_getterBound :: bool
  lastSyncedFiles :: string

text \<open>A network write: the path posted to and the serialized body.\<close>

datatype request = Post string string


text \<open>
  \<open>syncFiles\<close>: \<open>stringify\<close> is \<open>JSON.stringify\<close> on file maps, \<open>wrap\<close> the
  serialization of the request body, \<open>fm\<close> what the getter returns now and \<open>resp\<close> how
  the write ends if one is made. The result is the service afterwards and the writes made.
\<close>

definition syncFiles ::
  "('f \<Rightarrow> string) \<Rightarrow> ('f \<Rightarrow> string) \<Rightarrow> 'f \<Rightarrow> response \<Rightarrow> FileSyncService
     \<Rightarrow> FileSyncService \<times> request list" where
  "syncFiles stringify wrap fm resp svc =
     (case truthy_value (fs_projectId svc) of
        None \<Rightarrow> (svc, [])
      | Some projectId \<Rightarrow>
          if \<not> fs_getterBound svc then (svc, [])
          else
            (let filesJson = stringify fm
             in if filesJson = lastSyncedFiles svc then (svc, [])
                else
                  (let req = Post (''/api/projects/'' @ projectId @ ''/files'') (wrap fm)
                   in case resp of
                        Ok \<Rightarrow> (svc\<lparr>lastSyncedFiles := filesJson\<rparr>, [req])
                      | NotOk \<Rightarrow> (svc, [req])
                      | Throws \<Rightarrow> (svc, [req]))))"

text \<open>\<open>forceSave\<close> forgets the last synced serialization, then syncs.\<close>

definition fs_forceSave ::
  "('f \<Rightarrow> string) \<Rightarrow> ('f \<Rightarrow> string) \<Rightarrow> 'f \<Rightarrow> response \<Rightarrow> FileSyncService
     \<Rightarrow> FileSyncService \<times> request list" where
  "fs_forceSave stringify wrap fm resp svc =
     syncFiles stringify wrap fm resp (svc\<lparr>lastSyncedFiles := []\<rparr>)"

text \<open>Two syncs in a row on the same state; the writes of both.\<close>

definition syncFiles_twice ::
  "('f \<Rightarrow> string) \<Rightarrow> ('f \<Rightarrow> string) \<Rightarrow> 'f \<Rightarrow> response \<Rightarrow> response \<Rightarrow> FileSyncService
     \<Rightarrow> FileSyncService \<times> request list" where
  "syncFiles_twice stringify wrap fm resp1 resp2 svc =
     (let (svc1, w1) = syncFiles stringify wrap fm resp1 svc;
          (svc2, w2) = syncFiles stringify wrap fm resp2 svc1
      in (svc2, w1 @ w2))"

subsection \<open>\<open>WorkbenchSyncService\<close>\<close>

record WorkbenchSyncService =
  wb_projectId :: "string option"
  wb_getterBound :: bool
  lastSyncedState :: string

text \<open>
  \<open>syncState\<close>, of the same shape: \<open>stringify\<close> serializes the state, \<open>wrap\<close> the
  snake-case body built from its fields.
\<close>

definition syncState ::
  "('w \<Rightarrow> string) \<Rightarrow> ('w \<Rightarrow> string) \<Rightarrow> 'w \<Rightarrow> response \<Rightarrow> WorkbenchSyncService
     \<Rightarrow> WorkbenchSyncService \<times> request list" where
  "syncState stringify wrap st resp svc =
     (case truthy_value (wb_projectId svc) of
        None \<Rightarrow> (svc, [])
      | Some projectId \<Rightarrow>
          if \<not> wb_getterBound svc then (svc, [])
          else
            (let stateJson = stringify st
             in if stateJson = lastSyncedState svc then (svc, [])
                else
                  (let req = Post (''/api/projects/'' @ projectId @ ''/workbench'') (wrap st)
                   in case resp of
                        Ok \<Rightarrow> (svc\<lparr>lastSyncedState := stateJson\<rparr>, [req])
                      | NotOk \<Rightarrow> (svc, [req])
                      | Throws \<Rightarrow> (svc, [req]))))"

definition wb_forceSave ::
  "('w \<Rightarrow> string) \<Rightarrow> ('w \<Rightarrow> string) \<Rightarrow> 'w \<Rightarrow> response \<Rightarrow> WorkbenchSyncService
     \<Rightarrow> WorkbenchSyncService \<times> request list" where
  "wb_forceSave stringify wrap st resp svc =
     syncState stringify wrap st resp (svc\<lparr>lastSyncedState := []\<rparr>)"

definition syncState_twice ::
  "('w \<Rightarrow> string) \<Rightarrow> ('w \<Rightarrow> string) \<Rightarrow> 'w \<Rightarrow> response \<Rightarrow> response \<Rightarrow> WorkbenchSyncService
     \<Rightarrow> WorkbenchSyncService \<times> request list" where
  "syncState_twice stringify wrap st resp1 resp2 svc =
     (let (svc1, w1) = syncState stringify wrap st resp1 svc;
          (svc2, w2) = syncState stringify wrap st resp2 svc1
      in (svc2, w1 @ w2))"

section \<open>\<open>storeMessageHistory\<close> and \<open>syncMessagesToSupabase\<close>\<close>





















section \<open>The file endpoints of the Remote Project Store\<close>

text \<open>An entry of the posted file map, as the action types it, and a row of \<open>project_files\<close>.\<close>

record file_data =
  fd_type :: string
  fd_content :: "string option"
  fd_isBinary :: "bool option"

record file_row =
  project_id :: string
  file_path :: string
  row_content :: "string option"
  file_type :: string
  size_bytes :: nat

record project_row =
  p_id :: string
  clerk_user_id :: string
  url_id :: string

text \<open>\<open>.single()\<close>: the row when exactly one matches, nothing otherwise.\<close>

definition single :: "'a list \<Rightarrow> 'a option" where
  "single rows = (case rows of [r] \<Rightarrow> Some r | _ \<Rightarrow> None)"

definition js_true :: "bool option \<Rightarrow> bool" where
  "js_true b = (b = Some True)"

text \<open>The row the action prepares for one file entry.\<close>

definition to_row :: "string \<Rightarrow> string \<times> file_data \<Rightarrow> file_row" where
  "to_row projectId entry =
     (case entry of (path, fileData) \<Rightarrow>
        \<lparr>project_id = projectId,
         file_path = path,
         row_content = (if \<not> js_true (fd_isBinary fileData) then fd_content fileData else None),
         file_type = (if js_true (fd_isBinary fileData) then ''binary'' else ''text''),
         size_bytes = (case truthy_value (fd_content fileData) of
                         Some c \<Rightarrow> length c | None \<Rightarrow> 0)\<rparr>)"

definition filesToUpsert :: "string \<Rightarrow> (string \<times> file_data) list \<Rightarrow> file_row list" where
  "filesToUpsert projectId body =
     map (to_row projectId) (filter (\<lambda>entry. fd_type (snd entry) = ''file'') body)"

text \<open>
  Modelled from the spec: the store's upsert, which is not part of this repository. The
  spec gives it as an idempotent upsert keyed on project and file path: a row with the key
  of the new one is replaced, otherwise the new row is added.
\<close>

text \<open>The key of a row under the table's uniqueness constraint.\<close>

definition row_key :: "file_row \<Rightarrow> string \<times> string" where
  "row_key r = (project_id r, file_path r)"

definition same_key :: "file_row \<Rightarrow> file_row \<Rightarrow> bool" where
  "same_key r r' = (project_id r = project_id r' \<and> file_path r = file_path r')"

fun upsert_row :: "file_row \<Rightarrow> file_row list \<Rightarrow> file_row list" where
  "upsert_row r [] = [r]"
| "upsert_row r (x # xs) = (if same_key x r then r # xs else x # upsert_row r xs)"

fun upsert :: "file_row list \<Rightarrow> file_row list \<Rightarrow> file_row list" where
  "upsert [] table = table"
| "upsert (r # rs) table = upsert rs (upsert_row r table)"

datatype 'a http = Unauthorized | NotFound | ServerError | Json 'a

text \<open>
  The action of \<open>POST /api/projects/:projectId/files\<close>: the response (the number of
  rows saved) and the table afterwards. \<open>store_ok\<close> tells whether the upsert succeeds.
\<close>

definition files_action ::
  "string option \<Rightarrow> string option \<Rightarrow> project_row list \<Rightarrow> bool \<Rightarrow> (string \<times> file_data) list
     \<Rightarrow> file_row list \<Rightarrow> nat http \<times> file_row list" where
  "files_action userId projectId projects store_ok body table =
     (case (truthy_value userId, truthy_value projectId) of
        (Some uid, Some pid) \<Rightarrow>
          (case single (filter (\<lambda>p. p_id p = pid \<and> clerk_user_id p = uid) projects) of
             None \<Rightarrow> (NotFound, table)
           | Some project \<Rightarrow>
               (let rows = filesToUpsert pid body
                in if rows = [] then (Json 0, table)
                   else if store_ok then (Json (length rows), upsert rows table)
                   else (ServerError, table)))
      | _ \<Rightarrow> (Unauthorized, table))"

text \<open>The dirent the load endpoint builds from a row.\<close>

definition from_row :: "file_row \<Rightarrow> dirent" where
  "from_row file =
     File (case truthy_value (row_content file) of Some c \<Rightarrow> c | None \<Rightarrow> [])
          (file_type file = ''binary'')"

text \<open>\<open>fileMap[key] = value\<close> on an object kept as its list of entries.\<close>

fun assign :: "string \<Rightarrow> 'v \<Rightarrow> (string \<times> 'v) list \<Rightarrow> (string \<times> 'v) list" where
  "assign k v [] = [(k, v)]"
| "assign k v ((k', v') # kvs) = (if k' = k then (k, v) # kvs else (k', v') # assign k v kvs)"

fun build_fileMap :: "file_row list \<Rightarrow> FileMap \<Rightarrow> FileMap" where
  "build_fileMap [] fileMap = fileMap"
| "build_fileMap (file # rest) fileMap =
     build_fileMap rest (assign (file_path file) (Some (from_row file)) fileMap)"

text \<open>
  The loader of \<open>GET /api/projects/:projectId/load\<close>, as far as the files go: the
  project is looked up by id, then by url id, and its rows become the file map.
\<close>

definition find_project :: "string \<Rightarrow> string \<Rightarrow> project_row list \<Rightarrow> project_row option" where
  "find_project uid pid projects =
     (case single (filter (\<lambda>p. p_id p = pid \<and> clerk_user_id p = uid) projects) of
        Some byId \<Rightarrow> Some byId
      | None \<Rightarrow> single (filter (\<lambda>p. url_id p = pid \<and> clerk_user_id p = uid) projects))"

definition load_files ::
  "string option \<Rightarrow> string option \<Rightarrow> project_row list \<Rightarrow> file_row list \<Rightarrow> FileMap http" where
  "load_files userId projectId projects table =
     (case (truthy_value userId, truthy_value projectId) of
        (Some uid, Some pid) \<Rightarrow>
          (case find_project uid pid projects of
             None \<Rightarrow> NotFound
           | Some project \<Rightarrow>
               Json (build_fileMap (filter (\<lambda>r. project_id r = p_id project) table) []))
      | _ \<Rightarrow> Unauthorized)"

section \<open>Example inputs\<close>

definition plain_message :: "string \<Rightarrow> message" where
  "plain_message i =
     \<lparr>msg_id = i, msg_role = ''user'', content = [], parts = None, toolInvocations = None,
      annotations = None\<rparr>"

definition example_detect :: "(string \<times> string) list \<Rightarrow> ProjectCommands" where
  "example_detect fs = \<lparr>setupCommand = Some ''npm install'', startCommand = None\<rparr>"

definition example_actions :: "ProjectCommands \<Rightarrow> string" where
  "example_actions pc = (case setupCommand pc of Some c \<Rightarrow> c | None \<Rightarrow> [])"

text \<open>The log \<open>[m0, m1, m2, m3]\<close> with a snapshot taken at \<open>m1\<close>.\<close>

definition log4 :: "message list" where
  "log4 = [plain_message ''m0'', plain_message ''m1'', plain_message ''m2'', plain_message ''m3'']"

definition snapshot_m1 :: Snapshot where
  "snapshot_m1 = \<lparr>chatIndex = ''m1'', files = [(''a.txt'', Some (File ''hi'' False))],
                  summary = None\<rparr>"

text \<open>A log whose second message has the empty identifier.\<close>

definition log_empty_id :: "message list" where
  "log_empty_id = [plain_message ''a'', plain_message [], plain_message ''b'']"

text \<open>The log \<open>[m0, m1, m2]\<close>, for a rewind to \<open>m2\<close> over the snapshot at \<open>m1\<close>.\<close>

definition log3 :: "message list" where
  "log3 = [plain_message ''m0'', plain_message ''m1'', plain_message ''m2'']"

text \<open>
  Answers of the collaborators: a Local History Store that answers every look-up with the
  same record, and restores that differ in what the two stores hold.
\<close>

definition answer :: "ChatHistoryItem option \<Rightarrow> string \<Rightarrow> ChatHistoryItem option outcome" where
  "answer r i = Resolved r"

definition remote_project :: restored_project where
  "remote_project = \<lparr>rp_messages = [plain_message ''m0''], rp_description = None, rp_urlId = ''u1''\<rparr>"

text \<open>A local record of the session \<open>p1\<close> without messages.\<close>

definition empty_chat :: ChatHistoryItem where
  "empty_chat = \<lparr>chat_id = ''p1'', chat_urlId = None, chat_description = None,
                 messages = [], timestamp = ''t''\<rparr>"

text \<open>A local record with messages, stored under another identifier with the url id \<open>u1\<close>.\<close>

definition other_chat :: ChatHistoryItem where
  "other_chat = \<lparr>chat_id = ''7'', chat_urlId = Some ''u1'', chat_description = None,
                 messages = [plain_message ''m0''], timestamp = ''t''\<rparr>"

text \<open>The local record of \<open>p1\<close> is empty and the remote store has the project.\<close>

definition env_empty_local :: restore_env where
  "env_empty_local =
     \<lparr>local_result = Resolved (Some empty_chat, None), rewindTo = None, generatedId = ''g'',
      detectProjectCommands = example_detect, createCommandActionsString = example_actions,
      restoreSnapshot_ok = True, remote_result = Resolved (Some remote_project),
      getMessagesById = answer (Some empty_chat), getMessagesByUrlId = answer None\<rparr>"

text \<open>No local record under \<open>p1\<close>, but one with messages under the url id.\<close>

definition env_other_local :: restore_env where
  "env_other_local =
     \<lparr>local_result = Resolved (None, None), rewindTo = None, generatedId = ''g'',
      detectProjectCommands = example_detect, createCommandActionsString = example_actions,
      restoreSnapshot_ok = True, remote_result = Resolved (Some remote_project),
      getMessagesById = answer None, getMessagesByUrlId = answer (Some other_chat)\<rparr>"

text \<open>Neither store knows the session.\<close>

definition env_miss :: restore_env where
  "env_miss =
     \<lparr>local_result = Resolved (None, None), rewindTo = None, generatedId = ''g'',
      detectProjectCommands = example_detect, createCommandActionsString = example_actions,
      restoreSnapshot_ok = True, remote_result = Resolved None,
      getMessagesById = answer None, getMessagesByUrlId = answer None\<rparr>"

text \<open>The read of the Local History Store fails.\<close>

definition env_local_fails :: restore_env where
  "env_local_fails =
     \<lparr>local_result = Rejected ''read failed'', rewindTo = None, generatedId = ''g'',
      detectProjectCommands = example_detect, createCommandActionsString = example_actions,
      restoreSnapshot_ok = True, remote_result = Resolved None,
      getMessagesById = answer None, getMessagesByUrlId = answer None\<rparr>"



text \<open>A sync agent started for project \<open>p1\<close> that has not synced yet.\<close>

definition started_files :: FileSyncService where
  "started_files = \<lparr>fs_projectId = Some ''p1'', fs_getterBound = True, lastSyncedFiles = []\<rparr>"

definition started_workbench :: WorkbenchSyncService where
  "started_workbench = \<lparr>wb_projectId = Some ''p1'', wb_getterBound = True, lastSyncedState = []\<rparr>"

text \<open>A serialization for states that are already text.\<close>

definition as_text :: "string \<Rightarrow> string" where
  "as_text x = x"





text \<open>
  A project of \<open>user1\<close> and a posted file map with a binary file, a folder and a text
  file.
\<close>

definition projects1 :: "project_row list" where
  "projects1 = [\<lparr>p_id = ''proj1'', clerk_user_id = ''user1'', url_id = ''u1''\<rparr>]"

definition body1 :: "(string \<times> file_data) list" where
  "body1 =
     [(''/home/project/logo.png'',
         \<lparr>fd_type = ''file'', fd_content = Some ''PNG-bytes'', fd_isBinary = Some True\<rparr>),
      (''/home/project/src'',
         \<lparr>fd_type = ''folder'', fd_content = None, fd_isBinary = None\<rparr>),
      (''/home/project/a.txt'',
         \<lparr>fd_type = ''file'', fd_content = Some ''hi'', fd_isBinary = Some False\<rparr>)]"

section \<open>Facts about the helpers\<close>

lemma findIndex_ge: "- 1 \<le> findIndex P xs"
  by (induction xs) (auto simp: Let_def)

lemma findIndex_lt: "findIndex P xs < int (length xs)"
  by (induction xs) (auto simp: Let_def)

lemma findIndex_neg_iff: "findIndex P xs < 0 \<longleftrightarrow> (\<forall>x \<in> set xs. \<not> P x)"
  using findIndex_ge[of P] by (induction xs) (auto simp: Let_def)

lemma findIndex_absent: "\<forall>x \<in> set xs. \<not> P x \<Longrightarrow> findIndex P xs = - 1"
  using findIndex_neg_iff[of P xs] findIndex_ge[of P xs] by auto

lemma findIndex_sat: "0 \<le> findIndex P xs \<Longrightarrow> P (xs ! nat (findIndex P xs))"
proof (induction xs)
  case Nil
  then show ?case by simp
next
  case (Cons x xs)
  show ?case
  proof (cases "P x")
    case True
    then show ?thesis by simp
  next
    case False
    with Cons.prems have nn: "0 \<le> findIndex P xs"
      by (auto simp: Let_def split: if_splits)
    then have "nat (findIndex P xs + 1) = Suc (nat (findIndex P xs))" by simp
    with False nn Cons.IH show ?thesis by (simp add: Let_def)
  qed
qed

lemma slice_prefix: "0 \<le> e \<Longrightarrow> slice xs 0 e = take (nat e) xs"
  by (auto simp: slice_def Let_def min_def)

lemma slice_nonneg:
  "0 \<le> s \<Longrightarrow> 0 \<le> e \<Longrightarrow> slice xs s e = take (nat e - nat s) (drop (nat s) xs)"
  by (auto simp: slice_def Let_def min_def nat_diff_distrib')

lemma slice_split:
  "- 1 \<le> k \<Longrightarrow> k < int (length xs) \<Longrightarrow>
     (if 0 \<le> k then slice xs 0 (k + 1) else []) @ slice xs (k + 1) (int (length xs)) = xs"
  by (auto simp: slice_nonneg)

lemma join_sublist: "x \<in> set xs \<Longrightarrow> sublist x (join sep xs)"
proof (induction sep xs rule: join.induct)
  case (1 sep)
  then show ?case by simp
next
  case (2 sep y)
  then show ?case by simp
next
  case (3 sep y z zs)
  show ?case
  proof (cases "x = y")
    case True
    then show ?thesis by simp
  next
    case False
    with 3 have "sublist x (join sep (z # zs))" by simp
    then show ?thesis by (simp add: sublist_append)
  qed
qed

lemma sublist_inside: "sublist a b \<Longrightarrow> sublist a (p @ b @ s)"
proof -
  assume "sublist a b"
  then obtain p' s' where "b = p' @ a @ s'" by (auto simp: sublist_def)
  then have "p @ b @ s = (p @ p') @ a @ (s' @ s)" by simp
  then show ?thesis unfolding sublist_def by blast
qed

section \<open>The snapshot reconciler\<close>

lemma reconcile_fields:
  "startingIdx (reconcile g d c log snap rw) = compute_startingIdx log snap rw"
  "endingIdx (reconcile g d c log snap rw) = compute_endingIdx log rw"
  "snapshotIndex (reconcile g d c log snap rw) = compute_snapshotIndex log snap"
  by (simp_all add: reconcile_def Let_def)

lemma endingIdx_nonneg: "0 \<le> compute_endingIdx log rw"
proof (cases rw)
  case None
  then show ?thesis by (simp add: compute_endingIdx_def)
next
  case (Some r)
  with findIndex_ge[of "\<lambda>m. msg_id m = r" log] show ?thesis
    by (simp add: compute_endingIdx_def)
qed

lemma snapshot_hit:
  assumes "0 \<le> compute_snapshotIndex log snap"
  shows "msg_id (log ! nat (compute_snapshotIndex log snap)) = chatIndex (validSnapshot snap)"
  using findIndex_sat[of "\<lambda>m. msg_id m = chatIndex (validSnapshot snap)" log] assms
  by (simp add: compute_snapshotIndex_def)

lemma boltAction_embedded:
  assumes "(key, Some (File c b)) \<in> set fs"
  shows "sublist (boltAction (key, Some (File c b))) (restore_content fs cas)"
proof -
  have "boltAction (key, Some (File c b)) \<in> set (map boltAction fs)"
    unfolding set_map using assms by (rule imageI)
  then have emb: "sublist (boltAction (key, Some (File c b))) (embedded_files fs)"
    unfolding embedded_files_def by (rule join_sublist)
  obtain p s where "restore_content fs cas = p @ embedded_files fs @ s"
    unfolding restore_content_def by (metis append_assoc)
  with sublist_inside[OF emb] show ?thesis by simp
qed

lemma commands_embedded: "sublist cas (restore_content fs cas)"
proof -
  obtain p s where "restore_content fs cas = p @ cas @ s"
    unfolding restore_content_def by (metis append_assoc)
  then show ?thesis by simp
qed

lemma snapshot_file_list_eq:
  "snapshot_file_list fs = [(key, fc). (key, Some (File fc b)) \<leftarrow> fs]"
  by (induction fs rule: snapshot_file_list.induct) simp_all

lemma startingIdx_is_snapshotIndex:
  "0 < compute_startingIdx log snap rw \<Longrightarrow>
     compute_startingIdx log snap rw = compute_snapshotIndex log snap"
  by (simp add: compute_startingIdx_def Let_def split: if_splits)

lemma boltAction_literal:
  \<open>sublist (''<boltAction type="file" filePath="'' @ key @ ''">'' @ [CHR 0x0A] @ fc @ [CHR 0x0A]
             @ replicate 22 (CHR '' '') @ ''</boltAction>'')
     (boltAction (key, Some (File fc b)))\<close>
proof -
  have \<open>boltAction (key, Some (File fc b))
      = (nl @ spaces 22)
        @ (''<boltAction type="file" filePath="'' @ key @ ''">'' @ [CHR 0x0A] @ fc @ [CHR 0x0A]
             @ replicate 22 (CHR '' '') @ ''</boltAction>'')
        @ (nl @ spaces 22)\<close>
    by (simp add: file_action_def nl_def spaces_def)
  then show ?thesis by (simp only: sublist_appendI)
qed

lemma artifact_header:
  \<open>sublist ''<boltArtifact id="restored-project-setup" title="Restored Project & Setup" type="bundled">''
     (restore_content fs cas)\<close>
proof -
  have \<open>restore_content fs cas
      = (''Bolt Restored your chat from a snapshot. You can revert this message to load the full chat history.''
           @ nl @ spaces 18)
        @ ''<boltArtifact id="restored-project-setup" title="Restored Project & Setup" type="bundled">''
        @ (nl @ spaces 18 @ embedded_files fs @ nl @ spaces 18 @ cas @ nl
             @ spaces 18 @ ''</boltArtifact>'' @ nl @ spaces 18)\<close>
    by (simp add: restore_content_def)
  then show ?thesis by (simp only: sublist_appendI)
qed


lemmas ex_defs = log4_def snapshot_m1_def log_empty_id_def plain_message_def
  example_detect_def example_actions_def
lemmas rec_defs = reconcile_def compute_startingIdx_def compute_endingIdx_def
  compute_snapshotIndex_def validSnapshot_def snapshot_files_def slice_def truthy_def Let_def

text \<open>
  Claim C1 (rewind-to-snapshot override): for every message log, snapshot and rewind
  target (a non-empty \<open>rewindTo\<close> value, which is how the source tells a rewind target
  from none), if the snapshot's \<open>chatIndex\<close> resolves to a log position
  \<open>snapshotIndex > 0\<close> and the message at that position is itself the rewind target,
  then \<open>startingIdx = -1\<close>, \<open>archivedMessages\<close> is empty and \<open>visibleMessages\<close>
  is the log prefix up to and including the rewind target, with no synthetic message
  prepended.
\<close>

theorem rewind_to_snapshot_override:
  assumes "0 < snapshotIndex (reconcile g d c log snap (Some r))"
    and "msg_id (log ! nat (snapshotIndex (reconcile g d c log snap (Some r)))) = r"
    and "r \<noteq> []"
  shows "startingIdx (reconcile g d c log snap (Some r)) = - 1
       \<and> archivedMessages (reconcile g d c log snap (Some r)) = []
       \<and> visibleMessages (reconcile g d c log snap (Some r))
           = take (nat (snapshotIndex (reconcile g d c log snap (Some r))) + 1) log
       \<and> last (visibleMessages (reconcile g d c log snap (Some r)))
           = log ! nat (snapshotIndex (reconcile g d c log snap (Some r)))"
proof -
  let ?k = "compute_snapshotIndex log snap"
  have k: "0 < ?k" and idr: "msg_id (log ! nat ?k) = r"
    using assms(1,2) by (simp_all add: reconcile_fields)
  have st: "compute_startingIdx log snap (Some r) = - 1"
    using k idr by (simp add: compute_startingIdx_def Let_def)
  have "chatIndex (validSnapshot snap) = r"
    using snapshot_hit[of log snap] k idr by simp
  then have e: "compute_endingIdx log (Some r) = ?k + 1"
    using assms(3) by (simp add: compute_endingIdx_def compute_snapshotIndex_def truthy_def)
  have vis: "visibleMessages (reconcile g d c log snap (Some r)) = take (nat ?k + 1) log"
    using st e k by (simp add: reconcile_def Let_def slice_prefix nat_add_distrib)
  have len: "nat ?k < length log"
    using findIndex_lt[of "\<lambda>m. msg_id m = chatIndex (validSnapshot snap)" log] k
    by (simp add: compute_snapshotIndex_def)
  then have "take (nat ?k + 1) log = take (nat ?k) log @ [log ! nat ?k]"
    by (simp add: take_Suc_conv_app_nth)
  then have "last (take (nat ?k + 1) log) = log ! nat ?k" by simp
  with vis st show ?thesis
    by (simp add: reconcile_fields) (simp add: reconcile_def Let_def)
qed

text \<open>
  The override on the log \<open>[m0, m1, m2, m3]\<close> with the snapshot at \<open>m1\<close> and the
  rewind target \<open>m1\<close>: the visible messages are \<open>[m0, m1]\<close>.
\<close>

theorem rewind_to_snapshot_override_witness:
  "0 < snapshotIndex (reconcile ''g'' example_detect example_actions log4 (Some snapshot_m1) (Some ''m1''))
   \<and> msg_id (log4 ! nat (snapshotIndex
         (reconcile ''g'' example_detect example_actions log4 (Some snapshot_m1) (Some ''m1''))))
       = ''m1''
   \<and> ''m1'' \<noteq> []
   \<and> startingIdx (reconcile ''g'' example_detect example_actions log4 (Some snapshot_m1) (Some ''m1'')) = - 1
   \<and> archivedMessages (reconcile ''g'' example_detect example_actions log4 (Some snapshot_m1) (Some ''m1'')) = []
   \<and> visibleMessages (reconcile ''g'' example_detect example_actions log4 (Some snapshot_m1) (Some ''m1''))
       = [plain_message ''m0'', plain_message ''m1'']"
proof -
  let ?R = "reconcile ''g'' example_detect example_actions log4 (Some snapshot_m1) (Some ''m1'')"
  have i: "snapshotIndex ?R = 1"
    by (simp add: reconcile_fields compute_snapshotIndex_def validSnapshot_def log4_def
        snapshot_m1_def plain_message_def)
  have h1: "0 < snapshotIndex ?R" by (simp add: i)
  have h2: "msg_id (log4 ! nat (snapshotIndex ?R)) = ''m1''"
    by (simp add: i) (simp add: log4_def plain_message_def)
  have h3: "''m1'' \<noteq> []" by simp
  have "take (nat (snapshotIndex ?R) + 1) log4 = [plain_message ''m0'', plain_message ''m1'']"
    by (simp add: i) (simp add: log4_def)
  with rewind_to_snapshot_override[OF h1 h2 h3] h1 h2 h3
  show ?thesis by auto
qed

text \<open>
  Claim C9, as stated, at the empty rewind target: the empty identifier does not occur in
  the one-message log, and yet \<open>endingIdx\<close> is 1 and the message stays visible.
\<close>

theorem absent_rewind_target_counterexample:
  "log_empty_id \<noteq> [] \<and> ''zz'' \<notin> msg_id ` set [plain_message ''a'']
   \<and> [] \<notin> msg_id ` set [plain_message ''a'']
   \<and> endingIdx (reconcile ''g'' example_detect example_actions [plain_message ''a''] None (Some [])) = 1
   \<and> visibleMessages (reconcile ''g'' example_detect example_actions [plain_message ''a''] None (Some []))
       = [plain_message ''a'']"
  by (simp add: rec_defs log_empty_id_def plain_message_def)

text \<open>
  Claim C9 (absent rewind target), amended: for every log and every non-empty rewind
  target that does not occur in the log, \<open>endingIdx = 0\<close> and \<open>startingIdx = -1\<close>, so
  both \<open>visibleMessages\<close> and \<open>archivedMessages\<close> are empty.
\<close>

theorem absent_rewind_target:
  assumes "r \<noteq> []" and "r \<notin> msg_id ` set log"
  shows "endingIdx (reconcile g d c log snap (Some r)) = 0
       \<and> startingIdx (reconcile g d c log snap (Some r)) = - 1
       \<and> visibleMessages (reconcile g d c log snap (Some r)) = []
       \<and> archivedMessages (reconcile g d c log snap (Some r)) = []"
proof -
  have "findIndex (\<lambda>m. msg_id m = r) log = - 1"
    using assms(2) by (intro findIndex_absent) auto
  then have e: "compute_endingIdx log (Some r) = 0"
    using assms(1) by (simp add: compute_endingIdx_def truthy_def)
  have s: "compute_startingIdx log snap (Some r) = - 1"
    using e by (auto simp: compute_startingIdx_def Let_def)
  show ?thesis
    using e s by (simp add: reconcile_def Let_def slice_def)
qed

text \<open>
  A rewind target that is not in \<open>[m0, m1, m2, m3]\<close> empties the conversation.
\<close>

theorem absent_rewind_target_witness:
  "''zz'' \<noteq> [] \<and> ''zz'' \<notin> msg_id ` set log4
   \<and> endingIdx (reconcile ''g'' example_detect example_actions log4 (Some snapshot_m1) (Some ''zz'')) = 0
   \<and> startingIdx (reconcile ''g'' example_detect example_actions log4 (Some snapshot_m1) (Some ''zz'')) = - 1
   \<and> visibleMessages (reconcile ''g'' example_detect example_actions log4 (Some snapshot_m1) (Some ''zz'')) = []
   \<and> archivedMessages (reconcile ''g'' example_detect example_actions log4 (Some snapshot_m1) (Some ''zz'')) = []"
proof -
  have h1: "''zz'' \<noteq> []" by simp
  have h2: "''zz'' \<notin> msg_id ` set log4" by (simp add: log4_def plain_message_def)
  from absent_rewind_target[OF h1 h2, of "''g''" example_detect example_actions "Some snapshot_m1"] h1 h2
  show ?thesis by simp
qed

text \<open>
  Claim C5 (reconstruction identity): with no rewind target, \<open>archivedMessages\<close>
  followed by \<open>visibleMessages\<close> without its synthesized leading entries (two of them
  exactly when \<open>startingIdx > 0\<close>) is the original log, in order.
\<close>

theorem reconstruction_identity:
  "archivedMessages (reconcile g d c log snap None)
     @ drop (if 0 < startingIdx (reconcile g d c log snap None) then 2 else 0)
         (visibleMessages (reconcile g d c log snap None)) = log"
proof -
  let ?k = "compute_snapshotIndex log snap"
  have k1: "- 1 \<le> ?k" and k2: "?k < int (length log)"
    by (simp_all add: compute_snapshotIndex_def findIndex_ge findIndex_lt)
  have e: "compute_endingIdx log None = int (length log)"
    by (simp add: compute_endingIdx_def)
  have s: "compute_startingIdx log snap None = ?k"
    using k1 k2 e by (auto simp: compute_startingIdx_def Let_def)
  have arch: "archivedMessages (reconcile g d c log snap None)
               = (if 0 \<le> ?k then slice log 0 (?k + 1) else [])"
    using s by (simp add: reconcile_def Let_def)
  have vis: "drop (if 0 < ?k then 2 else 0) (visibleMessages (reconcile g d c log snap None))
               = slice log (?k + 1) (int (length log))"
    using s e by (simp add: reconcile_def Let_def)
  have "startingIdx (reconcile g d c log snap None) = ?k"
    using s by (simp add: reconcile_def Let_def)
  with arch vis slice_split[OF k1 k2] show ?thesis
    by (simp only:)
qed

text \<open>
  On \<open>[m0, m1, m2, m3]\<close> with the snapshot at \<open>m1\<close>: two archived messages, two
  synthesized ones, and the log is recovered.
\<close>

theorem reconstruction_identity_witness:
  "startingIdx (reconcile ''g'' example_detect example_actions log4 (Some snapshot_m1) None) = 1
   \<and> archivedMessages (reconcile ''g'' example_detect example_actions log4 (Some snapshot_m1) None)
       = [plain_message ''m0'', plain_message ''m1'']
   \<and> archivedMessages (reconcile ''g'' example_detect example_actions log4 (Some snapshot_m1) None)
     @ drop 2 (visibleMessages (reconcile ''g'' example_detect example_actions log4 (Some snapshot_m1) None))
     = log4"
proof -
  have s: "startingIdx (reconcile ''g'' example_detect example_actions log4 (Some snapshot_m1) None) = 1"
    by (simp add: rec_defs log4_def snapshot_m1_def plain_message_def)
  have a: "archivedMessages (reconcile ''g'' example_detect example_actions log4 (Some snapshot_m1) None)
       = [plain_message ''m0'', plain_message ''m1'']"
    by (simp add: rec_defs log4_def snapshot_m1_def plain_message_def)
  from reconstruction_identity[of "''g''" example_detect example_actions log4 "Some snapshot_m1"] s a
  show ?thesis by simp
qed


text \<open>
  Claim C2 (snapshot replay synthesis): whenever the reconciliation yields
  \<open>startingIdx > 0\<close>, the visible messages are exactly two synthesized messages
  followed by the log slice \<open>log[startingIdx+1 .. endingIdx)\<close>. The first is the user
  message with the generated identifier and the text announcing the restore, annotated
  \<open>no-store\<close> and \<open>hidden\<close>. The second is an assistant message under the identifier
  of the snapshot's message, annotated \<open>no-store\<close> first, whose content holds the
  artifact's opening tag, for every snapshot entry of type file the file action with its
  path and its content, and the command actions made from what the detector finds in the
  (path, content) pairs of exactly the snapshot's file entries.
\<close>

theorem snapshot_replay_synthesis:
  assumes "0 < startingIdx (reconcile g d c log snap rw)"
  shows \<open>\<exists>req asst.
        visibleMessages (reconcile g d c log snap rw)
          = req # asst
            # take (nat (endingIdx (reconcile g d c log snap rw))
                     - (nat (startingIdx (reconcile g d c log snap rw)) + 1))
                (drop (nat (startingIdx (reconcile g d c log snap rw)) + 1) log)
      \<and> msg_id req = g
      \<and> msg_role req = ''user''
      \<and> content req = ''Restore project from snapshot''
      \<and> annotations req = Some [Tag ''no-store'', Tag ''hidden'']
      \<and> msg_id asst = msg_id (log ! nat (startingIdx (reconcile g d c log snap rw)))
      \<and> msg_role asst = ''assistant''
      \<and> (\<exists>rest. annotations asst = Some (Tag ''no-store'' # rest))
      \<and> sublist ''<boltArtifact id="restored-project-setup" title="Restored Project & Setup" type="bundled">''
            (content asst)
      \<and> (\<forall>sn key fc b. snap = Some sn \<and> (key, Some (File fc b)) \<in> set (files sn) \<longrightarrow>
            sublist (''<boltAction type="file" filePath="'' @ key @ ''">'' @ [CHR 0x0A] @ fc
                       @ [CHR 0x0A] @ replicate 22 (CHR '' '') @ ''</boltAction>'')
              (content asst))
      \<and> sublist (c (d (case snap of
                          None \<Rightarrow> []
                        | Some sn \<Rightarrow> [(key, fc). (key, Some (File fc b)) \<leftarrow> files sn])))
            (content asst)\<close>
proof -
  let ?R = "reconcile g d c log snap rw"
  let ?given = "case snap of None \<Rightarrow> []
                | Some sn \<Rightarrow> [(key, fc). (key, Some (File fc b)) \<leftarrow> files sn]"
  let ?cas = "c (d ?given)"
  let ?asst = "restore_assistant (msg_id (log ! nat (compute_snapshotIndex log snap)))
                 (snapshot_files snap) ?cas (summary (validSnapshot snap))"
  have given: "snapshot_file_list (files (validSnapshot snap)) = ?given"
    by (simp add: snapshot_file_list_eq validSnapshot_def split: option.splits)
  have s: "0 < compute_startingIdx log snap rw"
    using assms by (simp add: reconcile_fields)
  have sk: "compute_startingIdx log snap rw = compute_snapshotIndex log snap"
    using s by (rule startingIdx_is_snapshotIndex)
  have sl: "slice log (compute_startingIdx log snap rw + 1) (compute_endingIdx log rw)
      = take (nat (compute_endingIdx log rw) - (nat (compute_startingIdx log snap rw) + 1))
          (drop (nat (compute_startingIdx log snap rw) + 1) log)"
    using s endingIdx_nonneg[of log rw] by (simp add: slice_nonneg nat_add_distrib)
  have vis: "visibleMessages ?R = restore_request g # ?asst
            # take (nat (endingIdx ?R) - (nat (startingIdx ?R) + 1))
                (drop (nat (startingIdx ?R) + 1) log)"
    using s sl given by (simp add: reconcile_def Let_def)
  have req: "msg_id (restore_request g) = g" "msg_role (restore_request g) = ''user''"
    "content (restore_request g) = ''Restore project from snapshot''"
    "annotations (restore_request g) = Some [Tag ''no-store'', Tag ''hidden'']"
    by (simp_all add: restore_request_def)
  have asst: "msg_id ?asst = msg_id (log ! nat (startingIdx ?R))" "msg_role ?asst = ''assistant''"
    "\<exists>rest. annotations ?asst = Some (Tag ''no-store'' # rest)"
    using sk by (simp_all add: restore_assistant_def reconcile_fields)
  have hdr: \<open>sublist ''<boltArtifact id="restored-project-setup" title="Restored Project & Setup" type="bundled">''
            (content ?asst)\<close>
    using artifact_header[of "snapshot_files snap" ?cas] by (simp add: restore_assistant_def)
  have files: \<open>\<forall>sn key fc b. snap = Some sn \<and> (key, Some (File fc b)) \<in> set (files sn) \<longrightarrow>
            sublist (''<boltAction type="file" filePath="'' @ key @ ''">'' @ [CHR 0x0A] @ fc
                       @ [CHR 0x0A] @ replicate 22 (CHR '' '') @ ''</boltAction>'')
              (content ?asst)\<close>
  proof (intro allI impI)
    fix sn key fc b
    assume a: "snap = Some sn \<and> (key, Some (File fc b)) \<in> set (files sn)"
    then have "(key, Some (File fc b)) \<in> set (snapshot_files snap)"
      by (simp add: snapshot_files_def)
    then have "sublist (boltAction (key, Some (File fc b)))
                 (restore_content (snapshot_files snap) ?cas)"
      by (rule boltAction_embedded)
    then obtain p s where "restore_content (snapshot_files snap) ?cas
        = p @ boltAction (key, Some (File fc b)) @ s"
      by (auto simp: sublist_def)
    with sublist_inside[OF boltAction_literal[of key fc b], of p s]
    show \<open>sublist (''<boltAction type="file" filePath="'' @ key @ ''">'' @ [CHR 0x0A] @ fc
                       @ [CHR 0x0A] @ replicate 22 (CHR '' '') @ ''</boltAction>'')
              (content ?asst)\<close>
      by (simp add: restore_assistant_def)
  qed
  have cmds: "sublist ?cas (content ?asst)"
    using commands_embedded[of ?cas "snapshot_files snap"] by (simp add: restore_assistant_def)
  from vis req asst hdr files cmds show ?thesis by blast
qed

text \<open>
  On \<open>[m0, m1, m2]\<close> with the snapshot at \<open>m1\<close> holding \<open>a.txt\<close> and the rewind
  target \<open>m2\<close>: the two synthesized messages, written out character by character, then
  \<open>m2\<close>.
\<close>

theorem snapshot_replay_synthesis_witness:
  \<open>0 < startingIdx (reconcile ''g'' example_detect example_actions log3 (Some snapshot_m1) (Some ''m2''))
   \<and> visibleMessages (reconcile ''g'' example_detect example_actions log3 (Some snapshot_m1) (Some ''m2''))
       = [\<lparr>msg_id = ''g'', msg_role = ''user'', content = ''Restore project from snapshot'',
           parts = None, toolInvocations = None,
           annotations = Some [Tag ''no-store'', Tag ''hidden'']\<rparr>,
          \<lparr>msg_id = ''m1'', msg_role = ''assistant'',
           content =
             ''Bolt Restored your chat from a snapshot. You can revert this message to load the full chat history.''
             @ [CHR 0x0A] @ replicate 18 (CHR '' '')
             @ ''<boltArtifact id="restored-project-setup" title="Restored Project & Setup" type="bundled">''
             @ [CHR 0x0A] @ replicate 18 (CHR '' '')
             @ [CHR 0x0A] @ replicate 22 (CHR '' '')
             @ ''<boltAction type="file" filePath="a.txt">'' @ [CHR 0x0A]
             @ ''hi'' @ [CHR 0x0A]
             @ replicate 22 (CHR '' '') @ ''</boltAction>'' @ [CHR 0x0A]
             @ replicate 22 (CHR '' '')
             @ [CHR 0x0A] @ replicate 18 (CHR '' '') @ ''npm install''
             @ [CHR 0x0A] @ replicate 18 (CHR '' '') @ ''</boltArtifact>''
             @ [CHR 0x0A] @ replicate 18 (CHR '' ''),
           parts = None, toolInvocations = None,
           annotations = Some [Tag ''no-store'']\<rparr>,
          plain_message ''m2'']
   \<and> (\<exists>req asst.
        visibleMessages (reconcile ''g'' example_detect example_actions log3 (Some snapshot_m1) (Some ''m2''))
          = [req, asst, plain_message ''m2'']
      \<and> sublist (''<boltAction type="file" filePath="'' @ ''a.txt'' @ ''">'' @ [CHR 0x0A] @ ''hi''
                    @ [CHR 0x0A] @ replicate 22 (CHR '' '') @ ''</boltAction>'')
           (content asst)
      \<and> sublist ''npm install'' (content asst))\<close>
proof -
  let ?R = "reconcile ''g'' example_detect example_actions log3 (Some snapshot_m1) (Some ''m2'')"
  have s: "startingIdx ?R = 1" and e: "endingIdx ?R = 3"
    by (simp_all add: rec_defs log3_def snapshot_m1_def plain_message_def)
  have h: "0 < startingIdx ?R" by (simp add: s)
  have v: \<open>visibleMessages ?R
       = [\<lparr>msg_id = ''g'', msg_role = ''user'', content = ''Restore project from snapshot'',
           parts = None, toolInvocations = None,
           annotations = Some [Tag ''no-store'', Tag ''hidden'']\<rparr>,
          \<lparr>msg_id = ''m1'', msg_role = ''assistant'',
           content =
             ''Bolt Restored your chat from a snapshot. You can revert this message to load the full chat history.''
             @ [CHR 0x0A] @ replicate 18 (CHR '' '')
             @ ''<boltArtifact id="restored-project-setup" title="Restored Project & Setup" type="bundled">''
             @ [CHR 0x0A] @ replicate 18 (CHR '' '')
             @ [CHR 0x0A] @ replicate 22 (CHR '' '')
             @ ''<boltAction type="file" filePath="a.txt">'' @ [CHR 0x0A]
             @ ''hi'' @ [CHR 0x0A]
             @ replicate 22 (CHR '' '') @ ''</boltAction>'' @ [CHR 0x0A]
             @ replicate 22 (CHR '' '')
             @ [CHR 0x0A] @ replicate 18 (CHR '' '') @ ''npm install''
             @ [CHR 0x0A] @ replicate 18 (CHR '' '') @ ''</boltArtifact>''
             @ [CHR 0x0A] @ replicate 18 (CHR '' ''),
           parts = None, toolInvocations = None,
           annotations = Some [Tag ''no-store'']\<rparr>,
          plain_message ''m2'']\<close>
    by (simp add: rec_defs log3_def snapshot_m1_def plain_message_def restore_request_def
        restore_assistant_def restore_content_def embedded_files_def file_action_def nl_def
        spaces_def summary_annotation_def example_detect_def example_actions_def)
  have t: "take (nat (endingIdx ?R) - (nat (startingIdx ?R) + 1))
                (drop (nat (startingIdx ?R) + 1) log3) = [plain_message ''m2'']"
    by (simp add: s e) (simp add: log3_def)
  have f: "(''a.txt'', Some (File ''hi'' False)) \<in> set (files snapshot_m1)"
    by (simp add: snapshot_m1_def)
  have c: "example_actions (example_detect
             (case Some snapshot_m1 of None \<Rightarrow> []
              | Some sn \<Rightarrow> [(key, fc). (key, Some (File fc b)) \<leftarrow> files sn]))
             = ''npm install''"
    by (simp add: example_actions_def example_detect_def)
  from snapshot_replay_synthesis[OF h] obtain req asst where
    a: "visibleMessages ?R = req # asst
            # take (nat (endingIdx ?R) - (nat (startingIdx ?R) + 1))
                (drop (nat (startingIdx ?R) + 1) log3)"
       \<open>\<forall>sn key fc b. Some snapshot_m1 = Some sn \<and> (key, Some (File fc b)) \<in> set (files sn) \<longrightarrow>
            sublist (''<boltAction type="file" filePath="'' @ key @ ''">'' @ [CHR 0x0A] @ fc
                       @ [CHR 0x0A] @ replicate 22 (CHR '' '') @ ''</boltAction>'')
              (content asst)\<close>
       "sublist (example_actions (example_detect
             (case Some snapshot_m1 of None \<Rightarrow> []
              | Some sn \<Rightarrow> [(key, fc). (key, Some (File fc b)) \<leftarrow> files sn])))
          (content asst)"
    by blast
  from a(2) f have \<open>sublist (''<boltAction type="file" filePath="'' @ ''a.txt'' @ ''">'' @ [CHR 0x0A] @ ''hi''
                    @ [CHR 0x0A] @ replicate 22 (CHR '' '') @ ''</boltAction>'')
           (content asst)\<close>
    by blast
  moreover from a(3) c have "sublist ''npm install'' (content asst)" by (simp only:)
  moreover from a(1) t have "visibleMessages ?R = [req, asst, plain_message ''m2'']" by (simp only:)
  ultimately show ?thesis using h v by blast
qed

section \<open>The restore coordinator\<close>

lemma queries_emit:
  "query_sequences (emit es s) = query_sequences s + length (filter is_local_query es)"
  by (simp add: query_sequences_def emit_def)

lemma queries_write_back: "query_sequences (write_back env i d s) = query_sequences s"
  by (simp add: write_back_def Let_def query_sequences_def emit_def
      split: outcome.splits option.splits)

lemma queries_remote_restore: "query_sequences (remote_restore env i s) = query_sequences s"
  by (simp add: remote_restore_def Let_def queries_write_back queries_emit
      split: outcome.splits option.splits)
    (simp add: query_sequences_def emit_def)

lemma queries_local_restore: "query_sequences (local_restore env i st snap s) = query_sequences s"
  by (simp add: local_restore_def Let_def query_sequences_def emit_def split: option.splits)

lemma queries_on_resolved: "query_sequences (on_resolved env i st snap s) = query_sequences s"
  using queries_remote_restore[of env i s] queries_local_restore[of env i _ snap s]
  by (simp add: on_resolved_def Let_def query_sequences_def split: option.splits)

lemma queries_settle: "query_sequences (settle env i s) = query_sequences s"
proof -
  let ?s0 = "s\<lparr>inflight := remove1 i (inflight s)\<rparr>"
  have q0: "query_sequences ?s0 = query_sequences s" by (simp add: query_sequences_def)
  have "query_sequences (on_rejected e ?s0) = query_sequences s" for e
    by (simp add: on_rejected_def query_sequences_def emit_def)
  moreover have "query_sequences (on_resolved env i st snap ?s0) = query_sequences s" for st snap
    using queries_on_resolved[of env i st snap ?s0] q0 by simp
  moreover have "query_sequences (on_finally t) = query_sequences t" for t
    by (simp add: on_finally_def query_sequences_def emit_def)
  ultimately show ?thesis
    by (simp add: settle_def Let_def split: outcome.splits prod.splits)
qed

lemma queries_step:
  assumes "\<not> is_activation e" and "step e s = Some s'"
  shows "query_sequences s' = query_sequences s"
proof (cases e)
  case (Activate p d m)
  with assms show ?thesis by simp
next
  case (Settle env i)
  with assms show ?thesis using queries_settle[of env i s] by (auto split: if_splits)
next
  case TimerFires
  with assms show ?thesis by (auto simp: release_def query_sequences_def split: if_splits)
qed

lemma queries_run:
  "\<forall>e \<in> set evs. \<not> is_activation e \<Longrightarrow> run evs s = Some s' \<Longrightarrow>
     query_sequences s' = query_sequences s"
proof (induction evs arbitrary: s)
  case Nil
  then show ?case by simp
next
  case (Cons e evs)
  then obtain t where t: "step e s = Some t" "run evs t = Some s'"
    by (auto split: option.splits)
  with Cons have "query_sequences s' = query_sequences t" by simp
  moreover from Cons.prems t have "query_sequences t = query_sequences s"
    using queries_step[of e s t] by simp
  ultimately show ?case by simp
qed

lemma activate_locked: "restoreInProgress s \<Longrightarrow> activate p db m s = s"
  by (simp add: activate_def)

lemma activate_starts:
  "\<not> restoreInProgress s \<Longrightarrow> truthy i \<Longrightarrow>
     activate p True (Some i) s
       = emit [LocalQuery i]
           (s\<lparr>autoStartInProgress := False, restoreInProgress := True, inflight := inflight s @ [i]\<rparr>)"
  by (simp add: activate_def Let_def)

text \<open>
  What the lock does while it is held: an activation that finds it held leaves the
  component as it is; after an activation that takes it, and any settling of chains and
  firing of timers that leave it held, a further activation for the same session
  identifier starts nothing; and once the chain has settled and its release timer has
  fired, an activation for another session identifier starts a fresh query sequence.
\<close>

lemma lock_window:
  "(restoreInProgress s \<longrightarrow> activate p db m s = s)
   \<and> (\<not> restoreInProgress s \<and> truthy i \<and> (\<forall>e \<in> set evs. \<not> is_activation e)
        \<and> run evs (activate p True (Some i) s) = Some s' \<and> restoreInProgress s'
      \<longrightarrow> query_sequences (activate p' db' (Some i) s') = query_sequences s + 1)
   \<and> (\<not> restoreInProgress s \<and> truthy i \<and> truthy j
      \<longrightarrow> (\<exists>t. run [Activate p True (Some i), Settle env i, TimerFires] s = Some t
               \<and> \<not> restoreInProgress t
               \<and> activate p True (Some j) t = emit [LocalQuery j]
                    (t\<lparr>autoStartInProgress := False, restoreInProgress := True,
                       inflight := inflight t @ [j]\<rparr>)
               \<and> query_sequences (activate p True (Some j) t) = query_sequences s + 2))"
proof (intro conjI impI)
  assume "restoreInProgress s"
  then show "activate p db m s = s" by (rule activate_locked)
next
  assume a: "\<not> restoreInProgress s \<and> truthy i \<and> (\<forall>e \<in> set evs. \<not> is_activation e)
        \<and> run evs (activate p True (Some i) s) = Some s' \<and> restoreInProgress s'"
  then have "query_sequences s' = query_sequences (activate p True (Some i) s)"
    using queries_run[of evs "activate p True (Some i) s" s'] by simp
  also have "\<dots> = query_sequences s + 1"
    using a by (simp add: activate_starts queries_emit) (simp add: query_sequences_def)
  finally show "query_sequences (activate p' db' (Some i) s') = query_sequences s + 1"
    using a by (simp add: activate_locked)
next
  assume a: "\<not> restoreInProgress s \<and> truthy i \<and> truthy j"
  let ?s1 = "activate p True (Some i) s"
  let ?s2 = "settle env i ?s1"
  let ?t = "release ?s2"
  have in1: "i \<in> set (inflight ?s1)" using a by (simp add: activate_starts emit_def)
  have tm: "0 < release_timers ?s2"
    by (simp add: settle_def Let_def on_finally_def emit_def split: outcome.splits prod.splits)
  have r: "run [Activate p True (Some i), Settle env i, TimerFires] s = Some ?t"
    using in1 tm by simp
  have nl: "\<not> restoreInProgress ?t" by (simp add: release_def)
  have q: "query_sequences ?t = query_sequences s + 1"
    using a by (simp add: release_def query_sequences_def)
       (simp add: queries_settle[unfolded query_sequences_def] activate_starts emit_def)
  have st: "activate p True (Some j) ?t = emit [LocalQuery j]
                    (?t\<lparr>autoStartInProgress := False, restoreInProgress := True,
                       inflight := inflight ?t @ [j]\<rparr>)"
    using nl a by (simp add: activate_starts)
  have "query_sequences (activate p True (Some j) ?t) = query_sequences s + 2"
    unfolding st using q by (simp add: queries_emit) (simp add: query_sequences_def)
  with r nl st show "\<exists>t. run [Activate p True (Some i), Settle env i, TimerFires] s = Some t
               \<and> \<not> restoreInProgress t
               \<and> activate p True (Some j) t = emit [LocalQuery j]
                    (t\<lparr>autoStartInProgress := False, restoreInProgress := True,
                       inflight := inflight t @ [j]\<rparr>)
               \<and> query_sequences (activate p True (Some j) t) = query_sequences s + 2"
    by blast
qed

lemmas hook_defs = activate_def settle_def on_resolved_def on_rejected_def on_finally_def
  remote_restore_def write_back_def lookup_by_urlId_def existingChat_def release_def emit_def
  fresh_def truthy_def or_undefined_def Let_def query_sequences_def local_store_writes_def
lemmas env_defs = env_miss_def env_local_fails_def env_empty_local_def env_other_local_def
  answer_def remote_project_def empty_chat_def other_chat_def plain_message_def

text \<open>
  Claim C4 (at-most-one concurrent restore) at the activations of one component for the
  session \<open>c1\<close>, the first of which fails on the read of the Local History Store. The
  \<open>catch\<close> handler releases the lock at once and the \<open>finally\<close> handler still
  schedules the release timer. The second activation takes the lock and starts its
  queries; the timer left by the first restore then fires and frees the lock while the
  second chain is still pending; the third activation is not dropped: two restores of
  \<open>c1\<close> are in flight together, three query sequences in all.
\<close>

theorem stale_timer_concurrent_restores:
  "map_option restoreInProgress
       (run [Activate True True (Some ''c1''), Settle env_local_fails ''c1'',
             Activate True True (Some ''c1'')] fresh) = Some True
   \<and> map_option inflight
       (run [Activate True True (Some ''c1''), Settle env_local_fails ''c1'',
             Activate True True (Some ''c1'')] fresh) = Some [''c1'']
   \<and> map_option restoreInProgress
       (run [Activate True True (Some ''c1''), Settle env_local_fails ''c1'',
             Activate True True (Some ''c1''), TimerFires] fresh) = Some False
   \<and> map_option inflight
       (run [Activate True True (Some ''c1''), Settle env_local_fails ''c1'',
             Activate True True (Some ''c1''), TimerFires] fresh) = Some [''c1'']
   \<and> map_option inflight
       (run [Activate True True (Some ''c1''), Settle env_local_fails ''c1'',
             Activate True True (Some ''c1''), TimerFires,
             Activate True True (Some ''c1'')] fresh) = Some [''c1'', ''c1'']
   \<and> map_option query_sequences
       (run [Activate True True (Some ''c1''), Settle env_local_fails ''c1'',
             Activate True True (Some ''c1''), TimerFires,
             Activate True True (Some ''c1'')] fresh) = Some 3"
  by (simp add: hook_defs env_local_fails_def)

lemma write_back_writes:
  assumes "getMessagesById env i = Resolved a" and "lookup_by_urlId env d = Resolved b"
  shows "local_store_writes (write_back env i d s)
           = local_store_writes s
             @ (case existingChat a b of
                  None \<Rightarrow> [SetMessages i (rp_messages d) (Some (rp_urlId d))
                              (or_undefined (rp_description d))]
                | Some c \<Rightarrow>
                    if messages c = []
                    then [SetMessages i (rp_messages d) (Some (rp_urlId d))
                            (or_undefined (rp_description d))]
                    else [])"
  using assms
  by (auto simp: write_back_def Let_def local_store_writes_def emit_def
      split: option.splits if_splits)

lemma write_back_chatId:
  assumes "getMessagesById env i = Resolved a" and "lookup_by_urlId env d = Resolved b"
    and "existingChat a b = Some c" and "messages c \<noteq> []"
  shows "chatId (write_back env i d s) = (if chat_id c \<noteq> i then Some (chat_id c) else chatId s)"
  using assms
  by (auto simp: write_back_def Let_def emit_def split: option.splits if_splits)

text \<open>
  Claim C6, as stated, where the Local History Store holds a record of the session that
  has no messages: a record with the same chat identifier exists, and the fetched messages
  are written back all the same.
\<close>

theorem write_back_counterexample:
  "remote_result env_empty_local = Resolved (Some remote_project)
   \<and> getMessagesById env_empty_local ''p1'' = Resolved (Some empty_chat)
   \<and> chat_id empty_chat = ''p1''
   \<and> local_store_writes (remote_restore env_empty_local ''p1'' fresh)
       = [SetMessages ''p1'' [plain_message ''m0''] (Some ''u1'') None]"
  by (simp add: hook_defs env_defs)

text \<open>
  Claim C6 (opportunistic write-back), amended: after a successful remote fallback
  restore whose two look-ups in the Local History Store resolve, the fetched messages are
  written back if and only if the record found (by chat identifier, else by url
  identifier) is absent or has no messages; when the record found has messages, nothing
  is written and its identifier is the current chat identifier afterwards.
\<close>

theorem write_back_condition:
  assumes "remote_result env = Resolved (Some d)" and "rp_messages d \<noteq> []"
    and "getMessagesById env i = Resolved a" and "lookup_by_urlId env d = Resolved b"
  shows "local_store_writes (remote_restore env i s)
           = local_store_writes s
             @ (case existingChat a b of
                  None \<Rightarrow> [SetMessages i (rp_messages d) (Some (rp_urlId d))
                              (or_undefined (rp_description d))]
                | Some c \<Rightarrow>
                    if messages c = []
                    then [SetMessages i (rp_messages d) (Some (rp_urlId d))
                            (or_undefined (rp_description d))]
                    else [])
       \<and> (\<forall>c. existingChat a b = Some c \<and> messages c \<noteq> [] \<longrightarrow>
             local_store_writes (remote_restore env i s) = local_store_writes s
           \<and> chatId (remote_restore env i s) = Some (chat_id c))"
proof -
  let ?s1 = "(emit [RemoteRestore i] s)\<lparr>initialMessages := rp_messages d,
                        urlId := Some (rp_urlId d),
                        description := or_undefined (rp_description d),
                        chatId := Some i\<rparr>"
  have r: "remote_restore env i s = write_back env i d ?s1"
    using assms(1,2) by (simp add: remote_restore_def Let_def)
  have w0: "local_store_writes ?s1 = local_store_writes s"
    by (simp add: local_store_writes_def emit_def)
  have w: "local_store_writes (remote_restore env i s)
           = local_store_writes s
             @ (case existingChat a b of
                  None \<Rightarrow> [SetMessages i (rp_messages d) (Some (rp_urlId d))
                              (or_undefined (rp_description d))]
                | Some c \<Rightarrow>
                    if messages c = []
                    then [SetMessages i (rp_messages d) (Some (rp_urlId d))
                            (or_undefined (rp_description d))]
                    else [])"
    unfolding r using write_back_writes[OF assms(3,4), of ?s1] w0 by simp
  have "chatId (remote_restore env i s) = Some (chat_id c)"
    if "existingChat a b = Some c" "messages c \<noteq> []" for c
    unfolding r using write_back_chatId[OF assms(3,4) that, of ?s1] by simp
  with w show ?thesis by simp
qed

text \<open>
  The session \<open>p1\<close> has no local record, but the record \<open>7\<close> with the same url
  identifier has messages: nothing is written and \<open>7\<close> becomes the chat identifier.
\<close>

theorem write_back_condition_witness:
  "remote_result env_other_local = Resolved (Some remote_project)
   \<and> rp_messages remote_project \<noteq> []
   \<and> getMessagesById env_other_local ''p1'' = Resolved None
   \<and> lookup_by_urlId env_other_local remote_project = Resolved (Some other_chat)
   \<and> existingChat None (Some other_chat) = Some other_chat
   \<and> messages other_chat \<noteq> []
   \<and> local_store_writes (remote_restore env_other_local ''p1'' fresh) = []
   \<and> chatId (remote_restore env_other_local ''p1'' fresh) = Some ''7''"
proof -
  have h1: "remote_result env_other_local = Resolved (Some remote_project)"
    and h2: "rp_messages remote_project \<noteq> []"
    and h3: "getMessagesById env_other_local ''p1'' = Resolved None"
    and h4: "lookup_by_urlId env_other_local remote_project = Resolved (Some other_chat)"
    by (simp_all add: env_defs lookup_by_urlId_def truthy_def)
  have e: "existingChat None (Some other_chat) = Some other_chat"
    and m: "messages other_chat \<noteq> []" and c: "chat_id other_chat = ''7''"
    and f: "local_store_writes fresh = []"
    by (simp_all add: existingChat_def other_chat_def local_store_writes_def fresh_def)
  from write_back_condition[OF h1 h2 h3 h4, of fresh] e m c f
  have "local_store_writes (remote_restore env_other_local ''p1'' fresh) = []
      \<and> chatId (remote_restore env_other_local ''p1'' fresh) = Some ''7''"
    by simp
  with h1 h2 h3 h4 e m show ?thesis by blast
qed

lemma ready_when_resolved:
  "local_result env = Resolved x \<Longrightarrow> ready (settle env i s)"
  by (cases x) (simp add: settle_def on_resolved_def on_finally_def emit_def Let_def)

text \<open>
  Claim C3 at an activation whose read of the Local History Store fails: the chain ends
  in the \<open>catch\<close> handler, which releases the lock but never sets the ready flag, so the
  freshly mounted component stays not ready.
\<close>

theorem failed_local_read_not_ready:
  "ready (settle env_local_fails ''chat1'' (activate True True (Some ''chat1'') fresh)) = False
   \<and> restoreInProgress (settle env_local_fails ''chat1'' (activate True True (Some ''chat1'') fresh))
       = False
   \<and> inflight (settle env_local_fails ''chat1'' (activate True True (Some ''chat1'') fresh)) = []"
  by (simp add: hook_defs env_defs)

section \<open>The sync agents\<close>

lemma syncFiles_skip:
  "stringify fm = lastSyncedFiles svc \<Longrightarrow> syncFiles stringify wrap fm resp svc = (svc, [])"
  by (simp add: syncFiles_def Let_def split: option.splits)

lemma syncFiles_writes:
  "length (snd (syncFiles stringify wrap fm resp svc))
     = (if truthy_value (fs_projectId svc) = None \<or> \<not> fs_getterBound svc
           \<or> stringify fm = lastSyncedFiles svc then 0 else 1)"
  by (simp add: syncFiles_def Let_def split: option.splits response.splits)

lemma syncFiles_state:
  "fst (syncFiles stringify wrap fm resp svc)
     = (if truthy_value (fs_projectId svc) = None \<or> \<not> fs_getterBound svc
           \<or> stringify fm = lastSyncedFiles svc \<or> resp \<noteq> Ok
        then svc else svc\<lparr>lastSyncedFiles := stringify fm\<rparr>)"
  by (simp add: syncFiles_def Let_def split: option.splits response.splits)

lemma syncFiles_twice_writes:
  "length (snd (syncFiles_twice stringify wrap fm resp1 resp2 svc))
     = (if truthy_value (fs_projectId svc) = None \<or> \<not> fs_getterBound svc
           \<or> stringify fm = lastSyncedFiles svc then 0
        else if resp1 = Ok then 1 else 2)"
proof -
  have "syncFiles_twice stringify wrap fm resp1 resp2 svc
      = (fst (syncFiles stringify wrap fm resp2 (fst (syncFiles stringify wrap fm resp1 svc))),
         snd (syncFiles stringify wrap fm resp1 svc)
         @ snd (syncFiles stringify wrap fm resp2 (fst (syncFiles stringify wrap fm resp1 svc))))"
    by (simp add: syncFiles_twice_def split: prod.splits)
  then show ?thesis
    by (simp add: syncFiles_writes syncFiles_state)
qed

lemma syncState_skip:
  "stringify st = lastSyncedState svc \<Longrightarrow> syncState stringify wrap st resp svc = (svc, [])"
  by (simp add: syncState_def Let_def split: option.splits)

lemma syncState_writes:
  "length (snd (syncState stringify wrap st resp svc))
     = (if truthy_value (wb_projectId svc) = None \<or> \<not> wb_getterBound svc
           \<or> stringify st = lastSyncedState svc then 0 else 1)"
  by (simp add: syncState_def Let_def split: option.splits response.splits)

lemma syncState_state:
  "fst (syncState stringify wrap st resp svc)
     = (if truthy_value (wb_projectId svc) = None \<or> \<not> wb_getterBound svc
           \<or> stringify st = lastSyncedState svc \<or> resp \<noteq> Ok
        then svc else svc\<lparr>lastSyncedState := stringify st\<rparr>)"
  by (simp add: syncState_def Let_def split: option.splits response.splits)

lemma syncState_twice_writes:
  "length (snd (syncState_twice stringify wrap st resp1 resp2 svc))
     = (if truthy_value (wb_projectId svc) = None \<or> \<not> wb_getterBound svc
           \<or> stringify st = lastSyncedState svc then 0
        else if resp1 = Ok then 1 else 2)"
proof -
  have "syncState_twice stringify wrap st resp1 resp2 svc
      = (fst (syncState stringify wrap st resp2 (fst (syncState stringify wrap st resp1 svc))),
         snd (syncState stringify wrap st resp1 svc)
         @ snd (syncState stringify wrap st resp2 (fst (syncState stringify wrap st resp1 svc))))"
    by (simp add: syncState_twice_def split: prod.splits)
  then show ?thesis
    by (simp add: syncState_writes syncState_state)
qed

text \<open>
  Claim C7, as stated, on freshly started agents: when the first write is answered with a
  response that is not ok, or throws, the second sync of the same state writes again, two
  writes in all; and when the state is already the last synced one, neither sync writes.
\<close>

theorem sync_suppression_counterexample:
  "length (snd (syncFiles_twice as_text as_text ''{}'' NotOk Ok started_files)) = 2
   \<and> length (snd (syncState_twice as_text as_text ''{}'' Throws Ok started_workbench)) = 2
   \<and> length (snd (syncFiles_twice as_text as_text ''{}'' Ok Ok
                      (started_files\<lparr>lastSyncedFiles := ''{}''\<rparr>))) = 0"
  by (simp add: syncFiles_twice_writes syncState_twice_writes)
    (simp add: started_files_def started_workbench_def as_text_def truthy_value_def truthy_def)

text \<open>
  Claim C7 (sync suppression), amended, for the file sync agent and the workbench sync
  agent alike: a sync whose serialization equals the last synced one makes no network
  write and changes nothing; the last synced serialization changes only in a sync that
  wrote and got an ok response, and then to the serialization just sent; and on a started
  agent whose state differs from the last synced one, two syncs in a row of the same state
  make exactly one network write when the first write succeeds.
\<close>

theorem sync_suppression:
  "(stringify fm = lastSyncedFiles fsvc \<longrightarrow> syncFiles stringify wrap fm resp fsvc = (fsvc, []))
   \<and> (lastSyncedFiles (fst (syncFiles stringify wrap fm resp fsvc)) \<noteq> lastSyncedFiles fsvc
        \<longrightarrow> resp = Ok \<and> length (snd (syncFiles stringify wrap fm resp fsvc)) = 1
            \<and> lastSyncedFiles (fst (syncFiles stringify wrap fm resp fsvc)) = stringify fm)
   \<and> (truthy_value (fs_projectId fsvc) \<noteq> None \<and> fs_getterBound fsvc
        \<and> stringify fm \<noteq> lastSyncedFiles fsvc
        \<longrightarrow> length (snd (syncFiles_twice stringify wrap fm Ok next_resp fsvc)) = 1)
   \<and> (stringify' st = lastSyncedState wsvc \<longrightarrow> syncState stringify' wrap' st resp wsvc = (wsvc, []))
   \<and> (lastSyncedState (fst (syncState stringify' wrap' st resp wsvc)) \<noteq> lastSyncedState wsvc
        \<longrightarrow> resp = Ok \<and> length (snd (syncState stringify' wrap' st resp wsvc)) = 1
            \<and> lastSyncedState (fst (syncState stringify' wrap' st resp wsvc)) = stringify' st)
   \<and> (truthy_value (wb_projectId wsvc) \<noteq> None \<and> wb_getterBound wsvc
        \<and> stringify' st \<noteq> lastSyncedState wsvc
        \<longrightarrow> length (snd (syncState_twice stringify' wrap' st Ok next_resp wsvc)) = 1)"
  by (simp add: syncFiles_skip syncState_skip syncFiles_twice_writes syncState_twice_writes
      syncFiles_writes syncState_writes syncFiles_state syncState_state)

text \<open>
  Both agents started for \<open>p1\<close>: an already synced state is skipped, and two syncs of a
  new state with a successful first write make one write.
\<close>

theorem sync_suppression_witness:
  "syncFiles as_text as_text ''{}'' Ok (started_files\<lparr>lastSyncedFiles := ''{}''\<rparr>)
     = (started_files\<lparr>lastSyncedFiles := ''{}''\<rparr>, [])
   \<and> lastSyncedFiles (fst (syncFiles as_text as_text ''{}'' Ok started_files)) = ''{}''
   \<and> length (snd (syncFiles_twice as_text as_text ''{}'' Ok Ok started_files)) = 1
   \<and> syncState as_text as_text ''{}'' Ok (started_workbench\<lparr>lastSyncedState := ''{}''\<rparr>)
     = (started_workbench\<lparr>lastSyncedState := ''{}''\<rparr>, [])
   \<and> lastSyncedState (fst (syncState as_text as_text ''{}'' Ok started_workbench)) = ''{}''
   \<and> length (snd (syncState_twice as_text as_text ''{}'' Ok Ok started_workbench)) = 1"
proof -
  note synced = sync_suppression[where stringify = as_text and wrap = as_text and fm = "''{}''"
      and resp = Ok and fsvc = "started_files\<lparr>lastSyncedFiles := ''{}''\<rparr>"
      and stringify' = as_text and wrap' = as_text and st = "''{}''"
      and wsvc = "started_workbench\<lparr>lastSyncedState := ''{}''\<rparr>"]
  note changed = sync_suppression[where stringify = as_text and wrap = as_text and fm = "''{}''"
      and resp = Ok and fsvc = started_files and next_resp = Ok
      and stringify' = as_text and wrap' = as_text and st = "''{}''"
      and wsvc = started_workbench]
  have same: "as_text ''{}'' = lastSyncedFiles (started_files\<lparr>lastSyncedFiles := ''{}''\<rparr>)"
    "as_text ''{}'' = lastSyncedState (started_workbench\<lparr>lastSyncedState := ''{}''\<rparr>)"
    by (simp_all add: as_text_def)
  have new: "as_text ''{}'' \<noteq> lastSyncedFiles started_files"
    "as_text ''{}'' \<noteq> lastSyncedState started_workbench"
    "truthy_value (fs_projectId started_files) \<noteq> None" "fs_getterBound started_files"
    "truthy_value (wb_projectId started_workbench) \<noteq> None" "wb_getterBound started_workbench"
    by (simp_all add: as_text_def started_files_def started_workbench_def truthy_value_def
        truthy_def)
  have upd: "lastSyncedFiles (fst (syncFiles as_text as_text ''{}'' Ok started_files)) = ''{}''"
    "lastSyncedState (fst (syncState as_text as_text ''{}'' Ok started_workbench)) = ''{}''"
    by (simp_all add: syncFiles_def syncState_def as_text_def started_files_def
        started_workbench_def truthy_value_def truthy_def Let_def)
  from synced same have
    "syncFiles as_text as_text ''{}'' Ok (started_files\<lparr>lastSyncedFiles := ''{}''\<rparr>)
       = (started_files\<lparr>lastSyncedFiles := ''{}''\<rparr>, [])"
    "syncState as_text as_text ''{}'' Ok (started_workbench\<lparr>lastSyncedState := ''{}''\<rparr>)
       = (started_workbench\<lparr>lastSyncedState := ''{}''\<rparr>, [])"
    by blast+
  moreover from changed new have
    "length (snd (syncFiles_twice as_text as_text ''{}'' Ok Ok started_files)) = 1"
    "length (snd (syncState_twice as_text as_text ''{}'' Ok Ok started_workbench)) = 1"
    by blast+
  ultimately show ?thesis using upd by blast
qed

section \<open>Storing the message history\<close>





















section \<open>The file endpoints\<close>

lemma same_key_iff: "same_key x r \<longleftrightarrow> row_key x = row_key r"
  by (auto simp: same_key_def row_key_def)

lemma upsert_row_keys: "row_key ` set (upsert_row r t) = insert (row_key r) (row_key ` set t)"
  by (induction t) (auto simp: same_key_iff)

lemma upsert_row_distinct:
  "distinct (map row_key t) \<Longrightarrow> distinct (map row_key (upsert_row r t))"
proof (induction t)
  case Nil
  then show ?case by simp
next
  case (Cons x t)
  show ?case
  proof (cases "same_key x r")
    case True
    with Cons.prems show ?thesis by (simp add: same_key_iff)
  next
    case False
    have "row_key x \<notin> row_key ` set (upsert_row r t)"
      using Cons.prems False by (auto simp: upsert_row_keys same_key_iff)
    with Cons False show ?thesis by simp
  qed
qed

lemma upsert_row_mem: "r \<in> set (upsert_row r t)"
  by (induction t) auto

lemma upsert_row_keeps:
  "x \<in> set t \<Longrightarrow> row_key x \<noteq> row_key r \<Longrightarrow> x \<in> set (upsert_row r t)"
  by (induction t) (auto simp: same_key_iff)

lemma upsert_keeps:
  "x \<in> set t \<Longrightarrow> row_key x \<notin> row_key ` set rs \<Longrightarrow> x \<in> set (upsert rs t)"
  by (induction rs arbitrary: t) (auto simp: upsert_row_keeps)

lemma upsert_distinct:
  "distinct (map row_key t) \<Longrightarrow> distinct (map row_key (upsert rs t))"
  by (induction rs arbitrary: t) (auto simp: upsert_row_distinct)

lemma upsert_mem:
  "distinct (map row_key rs) \<Longrightarrow> r \<in> set rs \<Longrightarrow> r \<in> set (upsert rs t)"
proof (induction rs arbitrary: t)
  case Nil
  then show ?case by simp
next
  case (Cons x rs)
  show ?case
  proof (cases "r = x")
    case True
    have "x \<in> set (upsert_row x t)" by (rule upsert_row_mem)
    moreover have "row_key x \<notin> row_key ` set rs" using Cons.prems(1) by simp
    ultimately show ?thesis using True by (simp add: upsert_keeps)
  next
    case False
    with Cons show ?thesis by simp
  qed
qed

lemma map_of_assign: "map_of (assign k v kvs) = (map_of kvs)(k \<mapsto> v)"
  by (induction kvs) auto

lemma build_fileMap_other:
  "p \<notin> file_path ` set rows \<Longrightarrow> map_of (build_fileMap rows fm) p = map_of fm p"
  by (induction rows arbitrary: fm) (auto simp: map_of_assign)

lemma build_fileMap_row:
  "distinct (map file_path rows) \<Longrightarrow> r \<in> set rows \<Longrightarrow>
     map_of (build_fileMap rows fm) (file_path r) = Some (Some (from_row r))"
proof (induction rows arbitrary: fm)
  case Nil
  then show ?case by simp
next
  case (Cons x rows)
  show ?case
  proof (cases "r = x")
    case True
    with Cons.prems(1) have "file_path r \<notin> file_path ` set rows" by simp
    then show ?thesis using True by (simp add: build_fileMap_other map_of_assign)
  next
    case False
    with Cons show ?thesis by simp
  qed
qed

lemma assign_values: "(k', v') \<in> set (assign k v kvs) \<Longrightarrow> (k', v') \<in> set kvs \<or> v' = v"
  by (induction kvs) (auto split: if_splits)

lemma build_fileMap_values:
  "(k, v) \<in> set (build_fileMap rows fm) \<Longrightarrow>
     (k, v) \<in> set fm \<or> (\<exists>r \<in> set rows. v = Some (from_row r))"
proof (induction rows arbitrary: fm)
  case Nil
  then show ?case by simp
next
  case (Cons x rows)
  from Cons.prems have "(k, v) \<in> set (build_fileMap rows (assign (file_path x) (Some (from_row x)) fm))"
    by simp
  from Cons.IH[OF this] show ?case
    by (auto dest: assign_values)
qed

lemma project_filter_distinct:
  "distinct (map row_key t) \<Longrightarrow> distinct (map file_path (filter (\<lambda>r. project_id r = pid) t))"
proof (induction t)
  case Nil
  then show ?case by simp
next
  case (Cons x t)
  then have "file_path x \<notin> file_path ` set (filter (\<lambda>r. project_id r = pid) t)"
    if "project_id x = pid"
    using that by (auto simp: row_key_def image_iff)
  with Cons show ?case by simp
qed

lemma single_Some: "single rows = Some r \<Longrightarrow> rows = [r]"
  by (auto simp: single_def split: list.splits)

lemma to_row_binary:
  "fd_isBinary fd = Some True \<Longrightarrow>
     row_content (to_row pid (path, fd)) = None \<and> file_type (to_row pid (path, fd)) = ''binary''
     \<and> from_row (to_row pid (path, fd)) = File [] True"
  by (simp add: to_row_def js_true_def from_row_def truthy_value_def)

lemma row_key_to_row: "row_key (to_row pid (path, fd)) = (pid, path)"
  by (simp add: row_key_def to_row_def)

lemma filesToUpsert_distinct:
  assumes "distinct (map fst body)"
  shows "distinct (map row_key (filesToUpsert pid body))"
proof -
  have "map row_key (filesToUpsert pid body)
          = map (\<lambda>e. (pid, fst e)) (filter (\<lambda>entry. fd_type (snd entry) = ''file'') body)"
    by (simp add: filesToUpsert_def row_key_def to_row_def split_beta)
  moreover have "distinct (map fst (filter (\<lambda>entry. fd_type (snd entry) = ''file'') body))"
    using assms by (rule distinct_map_filter)
  then have "distinct (map (Pair pid) (map fst (filter (\<lambda>entry. fd_type (snd entry) = ''file'') body)))"
    by (subst distinct_map) (simp add: inj_on_def)
  then have "distinct (map (\<lambda>e. (pid, fst e)) (filter (\<lambda>entry. fd_type (snd entry) = ''file'') body))"
    by (simp only: map_map o_def)
  ultimately show ?thesis by simp
qed

text \<open>
  Claim C10 (binary content is not round-tripped): when the file sync endpoint accepts a
  posted file map (its keys distinct, as those of an object are) on a table that respects
  its uniqueness constraint, then for every entry of type file with \<open>isBinary\<close> true
  the row prepared has null content and file type \<open>binary\<close> and is in the table
  afterwards, the load endpoint answers the same caller with a file map that gives that
  path a file with empty content and \<open>isBinary\<close> true, and every entry of the loaded
  map is a file: no folder comes back.
\<close>

theorem binary_not_round_tripped:
  assumes "files_action userId projectId projects store_ok body table = (Json n, table')"
    and "distinct (map fst body)" and "distinct (map row_key table)"
  shows "\<exists>pid fm. truthy_value projectId = Some pid
     \<and> load_files userId projectId projects table' = Json fm
     \<and> (\<forall>path fd. (path, fd) \<in> set body \<and> fd_type fd = ''file'' \<and> fd_isBinary fd = Some True \<longrightarrow>
           row_content (to_row pid (path, fd)) = None
         \<and> file_type (to_row pid (path, fd)) = ''binary''
         \<and> to_row pid (path, fd) \<in> set table'
         \<and> map_of fm path = Some (Some (File [] True)))
     \<and> (\<forall>entry \<in> set fm. \<exists>c b. snd entry = Some (File c b))"
proof -
  from assms(1) obtain uid pid where ids: "truthy_value userId = Some uid" "truthy_value projectId = Some pid"
    by (auto simp: files_action_def split: option.splits)
  let ?owned = "filter (\<lambda>p. p_id p = pid \<and> clerk_user_id p = uid) projects"
  from assms(1) ids obtain project where pr: "single ?owned = Some project"
    by (auto simp: files_action_def split: option.splits)
  let ?rows = "filesToUpsert pid body"
  from assms(1) ids pr have tab: "?rows = [] \<and> table' = table \<or> ?rows \<noteq> [] \<and> table' = upsert ?rows table"
    by (auto simp: files_action_def Let_def split: if_splits)
  have "project \<in> set ?owned" using single_Some[OF pr] by simp
  then have pid: "p_id project = pid" by simp
  have fp: "find_project uid pid projects = Some project"
    using pr by (simp add: find_project_def)
  let ?mine = "filter (\<lambda>r. project_id r = pid) table'"
  let ?fm = "build_fileMap ?mine []"
  have load: "load_files userId projectId projects table' = Json ?fm"
    using ids fp pid by (simp add: load_files_def)
  have dt: "distinct (map row_key table')"
    using tab assms(3) by (auto simp: upsert_distinct)
  have dm: "distinct (map file_path ?mine)"
    using dt by (rule project_filter_distinct)
  have bin: "row_content (to_row pid (path, fd)) = None
         \<and> file_type (to_row pid (path, fd)) = ''binary''
         \<and> to_row pid (path, fd) \<in> set table'
         \<and> map_of ?fm path = Some (Some (File [] True))"
    if e: "(path, fd) \<in> set body" "fd_type fd = ''file''" "fd_isBinary fd = Some True" for path fd
  proof -
    let ?r = "to_row pid (path, fd)"
    have "?r \<in> set ?rows" using e(1,2) by (force simp: filesToUpsert_def)
    with tab have "table' = upsert ?rows table" by auto
    with upsert_mem[OF filesToUpsert_distinct[OF assms(2)] \<open>?r \<in> set ?rows\<close>]
    have mem: "?r \<in> set table'" by simp
    moreover have "project_id ?r = pid" "file_path ?r = path" by (simp_all add: to_row_def)
    ultimately have "?r \<in> set ?mine" by simp
    from build_fileMap_row[OF dm this, of "[]"] \<open>file_path ?r = path\<close>
    have "map_of ?fm path = Some (Some (from_row ?r))" by simp
    with to_row_binary[OF e(3), of pid path] mem show ?thesis by simp
  qed
  have files: "\<forall>entry \<in> set ?fm. \<exists>c b. snd entry = Some (File c b)"
  proof
    fix entry assume "entry \<in> set ?fm"
    then have "(fst entry, snd entry) \<in> set ?fm" by simp
    from build_fileMap_values[OF this] obtain r where "snd entry = Some (from_row r)" by auto
    then show "\<exists>c b. snd entry = Some (File c b)" by (simp add: from_row_def)
  qed
  from ids(2) load bin files show ?thesis by blast
qed

lemmas files_defs = files_action_def load_files_def find_project_def filesToUpsert_def
  to_row_def from_row_def single_def js_true_def truthy_value_def truthy_def row_key_def
  same_key_def Let_def

text \<open>
  Saving a binary file, a folder and a text file into an empty table and loading the
  project: the binary file comes back empty, the folder does not come back.
\<close>

theorem binary_not_round_tripped_witness:
  "files_action (Some ''user1'') (Some ''proj1'') projects1 True body1 []
     = (Json 2, upsert (filesToUpsert ''proj1'' body1) [])
   \<and> distinct (map fst body1) \<and> distinct (map row_key [])
   \<and> fd_isBinary (snd (body1 ! 0)) = Some True
   \<and> (\<exists>fm. load_files (Some ''user1'') (Some ''proj1'') projects1
               (upsert (filesToUpsert ''proj1'' body1) []) = Json fm
          \<and> map_of fm ''/home/project/logo.png'' = Some (Some (File [] True))
          \<and> map_of fm ''/home/project/src'' = None)"
proof -
  have h1: "files_action (Some ''user1'') (Some ''proj1'') projects1 True body1 []
     = (Json 2, upsert (filesToUpsert ''proj1'' body1) [])"
    by (simp add: files_defs projects1_def body1_def)
  have h2: "distinct (map fst body1)" by (simp add: body1_def)
  have h3: "distinct (map row_key [])" by simp
  have e: "(''/home/project/logo.png'',
         \<lparr>fd_type = ''file'', fd_content = Some ''PNG-bytes'', fd_isBinary = Some True\<rparr>) \<in> set body1"
    "fd_isBinary (snd (body1 ! 0)) = Some True"
    by (simp_all add: body1_def)
  have t: "truthy_value (Some ''proj1'') = Some ''proj1''" by (simp add: truthy_value_def truthy_def)
  from binary_not_round_tripped[OF h1 h2 h3] t e(1) obtain fm where
    fm: "load_files (Some ''user1'') (Some ''proj1'') projects1
               (upsert (filesToUpsert ''proj1'' body1) []) = Json fm"
        "map_of fm ''/home/project/logo.png'' = Some (Some (File [] True))"
    by force
  have "load_files (Some ''user1'') (Some ''proj1'') projects1
               (upsert (filesToUpsert ''proj1'' body1) [])
        = Json [(''/home/project/logo.png'', Some (File [] True)),
                (''/home/project/a.txt'', Some (File ''hi'' False))]"
    by (simp add: files_defs projects1_def body1_def)
  with fm have "map_of fm ''/home/project/src'' = None" by auto
  with h1 h2 h3 e(2) fm show ?thesis by blast
qed


end
